theory Spec2Isabelle
  imports Complex_Main "HOL-Library.Word" "HOL-Library.Multiset" "HOL-Library.Monad_Syntax"
begin

section \<open>Machine integers, device buffers and loops\<close>

text \<open>
  The kernels compute with \<open>size_t\<close> (64 bits) and \<open>unsigned int\<close> (32 bits, the thread
  index); both wrap around. A device buffer (\<open>T *\<close>, \<open>const size_t *\<close>) is a list, and an
  access outside it is undefined behaviour, which every model below returns as \<open>None\<close>,
  as it does for a division or remainder by zero.
\<close>

type_synonym size_t = "64 word"
type_synonym uint = "32 word"

definition load :: "'a list \<Rightarrow> nat \<Rightarrow> 'a option" where
  "load buf k = (if k < length buf then Some (buf ! k) else None)"

definition store :: "'a list \<Rightarrow> nat \<Rightarrow> 'a \<Rightarrow> 'a list option" where
  "store buf k v = (if k < length buf then Some (buf[k := v]) else None)"

text \<open>
  \<open>for (k = 0; k < n; k++) body\<close> runs the body over \<open>0, ..., n - 1\<close> in order and stops
  at the first undefined step.
\<close>

primrec for_each :: "'k list \<Rightarrow> ('k \<Rightarrow> 's \<Rightarrow> 's option) \<Rightarrow> 's \<Rightarrow> 's option" where
  "for_each [] body s = Some s"
| "for_each (k # ks) body s = (case body k s of None \<Rightarrow> None | Some s' \<Rightarrow> for_each ks body s')"

definition upto_size :: "size_t \<Rightarrow> size_t list" where
  "upto_size n = map of_nat [0..<unat n]"

text \<open>
  A kernel launch runs the thread body once for each launched thread index. The threads
  are taken in the order of the list, one read-modify-write at a time.
\<close>

definition launch :: "uint list \<Rightarrow> (uint \<Rightarrow> 's \<Rightarrow> 's option) \<Rightarrow> 's \<Rightarrow> 's option" where
  "launch threads body s = for_each threads body s"

section \<open>The scalar type of the kernels\<close>

text \<open>
  The kernels are instantiated at \<open>float\<close> and \<open>double\<close>. The operations they use on the
  scalar type \<open>T\<close> are collected in a record, so that a kernel is a function of these
  operations and a theorem stated for every such record holds for whatever the operations
  compute, rounding included.
\<close>

record 'a scalar =
  sc_zero :: 'a
  sc_one :: 'a
  sc_inf :: 'a
  sc_add :: "'a \<Rightarrow> 'a \<Rightarrow> 'a"
  sc_mul :: "'a \<Rightarrow> 'a \<Rightarrow> 'a"
  sc_div :: "'a \<Rightarrow> 'a \<Rightarrow> 'a"
  sc_neg :: "'a \<Rightarrow> 'a"
  sc_eq :: "'a \<Rightarrow> 'a \<Rightarrow> bool"
  sc_gt :: "'a \<Rightarrow> 'a \<Rightarrow> bool"
  sc_cast :: "size_t \<Rightarrow> 'a"
  sc_fmax :: "'a \<Rightarrow> 'a \<Rightarrow> 'a"
  sc_fmin :: "'a \<Rightarrow> 'a \<Rightarrow> 'a"

text \<open>
  One concrete scalar type: the values of an IEEE 754 format (a finite number, the two
  infinities, not-a-number) with the standard's rules for the special values and exact
  arithmetic on the finite ones. Rounding is not represented, nor is the sign of zero; a
  zero divisor is read as \<open>+0.0\<close>, which is what the conversion of an unsigned integer gives.
\<close>

datatype ieee = NaN | NInf | Fin real | PInf

fun ieee_neg :: "ieee \<Rightarrow> ieee" where
  "ieee_neg NaN = NaN"
| "ieee_neg NInf = PInf"
| "ieee_neg PInf = NInf"
| "ieee_neg (Fin a) = Fin (- a)"

fun ieee_add :: "ieee \<Rightarrow> ieee \<Rightarrow> ieee" where
  "ieee_add (Fin a) (Fin b) = Fin (a + b)"
| "ieee_add NaN _ = NaN"
| "ieee_add _ NaN = NaN"
| "ieee_add PInf NInf = NaN"
| "ieee_add NInf PInf = NaN"
| "ieee_add PInf _ = PInf"
| "ieee_add _ PInf = PInf"
| "ieee_add NInf _ = NInf"
| "ieee_add _ NInf = NInf"

fun ieee_mul :: "ieee \<Rightarrow> ieee \<Rightarrow> ieee" where
  "ieee_mul (Fin a) (Fin b) = Fin (a * b)"
| "ieee_mul NaN _ = NaN"
| "ieee_mul _ NaN = NaN"
| "ieee_mul (Fin a) PInf = (if a = 0 then NaN else if 0 < a then PInf else NInf)"
| "ieee_mul (Fin a) NInf = (if a = 0 then NaN else if 0 < a then NInf else PInf)"
| "ieee_mul PInf (Fin b) = (if b = 0 then NaN else if 0 < b then PInf else NInf)"
| "ieee_mul NInf (Fin b) = (if b = 0 then NaN else if 0 < b then NInf else PInf)"
| "ieee_mul PInf PInf = PInf"
| "ieee_mul NInf NInf = PInf"
| "ieee_mul PInf NInf = NInf"
| "ieee_mul NInf PInf = NInf"

fun ieee_div :: "ieee \<Rightarrow> ieee \<Rightarrow> ieee" where
  "ieee_div (Fin a) (Fin b) =
     (if b = 0 then (if a = 0 then NaN else if 0 < a then PInf else NInf) else Fin (a / b))"
| "ieee_div NaN _ = NaN"
| "ieee_div _ NaN = NaN"
| "ieee_div (Fin a) PInf = Fin 0"
| "ieee_div (Fin a) NInf = Fin 0"
| "ieee_div PInf (Fin b) = (if 0 \<le> b then PInf else NInf)"
| "ieee_div NInf (Fin b) = (if 0 \<le> b then NInf else PInf)"
| "ieee_div PInf PInf = NaN"
| "ieee_div PInf NInf = NaN"
| "ieee_div NInf PInf = NaN"
| "ieee_div NInf NInf = NaN"

text \<open>The comparisons \<open>==\<close>, \<open>>\<close> and \<open><=\<close>: false as soon as an operand is not-a-number.\<close>

fun ieee_eq :: "ieee \<Rightarrow> ieee \<Rightarrow> bool" where
  "ieee_eq NaN _ = False"
| "ieee_eq _ NaN = False"
| "ieee_eq a b = (a = b)"

fun ieee_gt :: "ieee \<Rightarrow> ieee \<Rightarrow> bool" where
  "ieee_gt NaN _ = False"
| "ieee_gt _ NaN = False"
| "ieee_gt (Fin a) (Fin b) = (b < a)"
| "ieee_gt PInf b = (b \<noteq> PInf)"
| "ieee_gt a NInf = (a \<noteq> NInf)"
| "ieee_gt _ _ = False"

definition ieee_le :: "ieee \<Rightarrow> ieee \<Rightarrow> bool" where
  "ieee_le a b = (a \<noteq> NaN \<and> b \<noteq> NaN \<and> \<not> ieee_gt a b)"

text \<open>\<open>fmax\<close> and \<open>fmin\<close> return the other operand when one is not-a-number.\<close>

fun ieee_fmax :: "ieee \<Rightarrow> ieee \<Rightarrow> ieee" where
  "ieee_fmax NaN b = b"
| "ieee_fmax a NaN = a"
| "ieee_fmax a b = (if ieee_gt a b then a else b)"

fun ieee_fmin :: "ieee \<Rightarrow> ieee \<Rightarrow> ieee" where
  "ieee_fmin NaN b = b"
| "ieee_fmin a NaN = a"
| "ieee_fmin a b = (if ieee_gt a b then b else a)"

definition exact :: "ieee scalar" where
  "exact = \<lparr> sc_zero = Fin 0, sc_one = Fin 1, sc_inf = PInf,
             sc_add = ieee_add, sc_mul = ieee_mul, sc_div = ieee_div, sc_neg = ieee_neg,
             sc_eq = ieee_eq, sc_gt = ieee_gt, sc_cast = (\<lambda>n. Fin (real (unat n))),
             sc_fmax = ieee_fmax, sc_fmin = ieee_fmin \<rparr>"

section \<open>The strided index resolver\<close>

text \<open>
  Modelled from the spec: \<open>get_strided_index\<close> is declared in \<open>cuda_utils.cuh\<close>, which is
  not among the sources; only its calls are (\<open>binary_div.cu\<close>). The spec's algorithm: the
  flat index is decomposed by repeated remainder and division against the shape, from
  the innermost dimension \<open>num_dims - 1\<close> to the outermost, with a running remainder, and
  for each dimension the coordinate times the stride is accumulated into the offset. The
  spec states no integer widths, so the model computes on natural numbers; a zero
  dimension (a division by zero) and a dimension outside the arrays are undefined.
\<close>

definition get_strided_index :: "nat \<Rightarrow> nat \<Rightarrow> nat list \<Rightarrow> nat list \<Rightarrow> nat option" where
  "get_strided_index idx num_dims dims strides =
     map_option snd
       (for_each [0..<num_dims]
          (\<lambda>d (idx, strided_i). do {
             let dim_idx = num_dims - 1 - d;
             n \<leftarrow> load dims dim_idx;
             s \<leftarrow> load strides dim_idx;
             if n = 0 then None
             else Some (idx div n, strided_i + (idx mod n) * s) })
          (idx, 0))"

text \<open>
  The reference computation of the spec, in its own words: unravel the flat index into a
  row-major multi-index against the shape, innermost dimension first with a running
  remainder, then take the dot product of the multi-index with the strides.
\<close>

fun unravel_innermost_first :: "nat \<Rightarrow> nat list \<Rightarrow> nat list" where
  "unravel_innermost_first r [] = []"
| "unravel_innermost_first r (n # ns) = (r mod n) # unravel_innermost_first (r div n) ns"

definition unravel :: "nat \<Rightarrow> nat list \<Rightarrow> nat list" where
  "unravel flat_index shape = rev (unravel_innermost_first flat_index (rev shape))"

definition reference_offset :: "nat \<Rightarrow> nat list \<Rightarrow> nat list \<Rightarrow> nat" where
  "reference_offset flat_index shape strides =
     (\<Sum>d < length shape. unravel flat_index shape ! d * strides ! d)"

section \<open>Binary division, backward\<close>

text \<open>
  The call \<open>unsigned int lhs_i = get_strided_index(i, num_dims, dims, lhs_strides)\<close> of
  \<open>binary_div.cu\<close>: the thread index is an \<open>unsigned int\<close>, the shape and the strides are
  \<open>size_t\<close> arrays, and the result is stored in an \<open>unsigned int\<close>, that is, modulo
  \<open>2 ^ 32\<close>.
\<close>

definition strided_index :: "uint \<Rightarrow> size_t \<Rightarrow> size_t list \<Rightarrow> size_t list \<Rightarrow> uint option" where
  "strided_index i num_dims dims strides =
     map_option of_nat
       (get_strided_index (unat i) (unat num_dims) (map unat dims) (map unat strides))"

text \<open>
  Lines 48 to 54 of \<open>binary_div_backward\<close>: the three resolved offsets and the three
  values read through them, as \<open>(lhs_i, rhs_i, x, y, go)\<close>.
\<close>

definition binary_div_operands :: "size_t \<Rightarrow> size_t list \<Rightarrow> 'a list \<Rightarrow> size_t list \<Rightarrow> 'a list
    \<Rightarrow> size_t list \<Rightarrow> 'a list \<Rightarrow> size_t list \<Rightarrow> uint \<Rightarrow> (uint \<times> uint \<times> 'a \<times> 'a \<times> 'a) option" where
  "binary_div_operands num_dims dims lhs lhs_strides rhs rhs_strides grad_out_buf out_strides i = do {
     lhs_i \<leftarrow> strided_index i num_dims dims lhs_strides;
     rhs_i \<leftarrow> strided_index i num_dims dims rhs_strides;
     out_i \<leftarrow> strided_index i num_dims dims out_strides;
     x \<leftarrow> load lhs (unat lhs_i);
     y \<leftarrow> load rhs (unat rhs_i);
     go \<leftarrow> load grad_out_buf (unat out_i);
     Some (lhs_i, rhs_i, x, y, go) }"

text \<open>\<open>float dfdx = 1.0 / y\<close> and \<open>float dfdy = -x / (y * y)\<close>\<close>

definition dfdx :: "'a scalar \<Rightarrow> 'a \<Rightarrow> 'a" where
  "dfdx T y = sc_div T (sc_one T) y"

definition dfdy :: "'a scalar \<Rightarrow> 'a \<Rightarrow> 'a \<Rightarrow> 'a" where
  "dfdy T x y = sc_div T (sc_neg T x) (sc_mul T y y)"

text \<open>
  The two gradient buffers, which the kernel changes by \<open>atomicAdd\<close> only. An atomic
  addition names its buffer, the offset and the value added; it is one indivisible
  read-modify-write, undefined outside the buffer.
\<close>

datatype grad_buffer = Grad_lhs | Grad_rhs

datatype 'a atomic_add = AtomicAdd (buffer: grad_buffer) (offset: nat) (addend: 'a)

record 'a div_grads =
  grad_lhs :: "'a list"
  grad_rhs :: "'a list"

definition atomicAdd :: "'a scalar \<Rightarrow> 'a atomic_add \<Rightarrow> 'a div_grads \<Rightarrow> 'a div_grads option" where
  "atomicAdd T a g =
     (case buffer a of
        Grad_lhs \<Rightarrow> do {
          old \<leftarrow> load (grad_lhs g) (offset a);
          Some (g\<lparr>grad_lhs := (grad_lhs g)[offset a := sc_add T old (addend a)]\<rparr>) }
      | Grad_rhs \<Rightarrow> do {
          old \<leftarrow> load (grad_rhs g) (offset a);
          Some (g\<lparr>grad_rhs := (grad_rhs g)[offset a := sc_add T old (addend a)]\<rparr>) })"

text \<open>
  The thread body of \<open>binary_div_backward\<close>, as the atomic additions that thread \<open>i\<close>
  issues, in program order.
\<close>

definition binary_div_backward :: "'a scalar \<Rightarrow> size_t \<Rightarrow> size_t \<Rightarrow> size_t list \<Rightarrow> 'a list
    \<Rightarrow> size_t list \<Rightarrow> 'a list \<Rightarrow> size_t list \<Rightarrow> 'a list \<Rightarrow> size_t list \<Rightarrow> uint
    \<Rightarrow> 'a atomic_add list option" where
  "binary_div_backward T numel num_dims dims lhs lhs_strides rhs rhs_strides grad_out_buf
       out_strides i =
     (if ucast i \<ge> numel then Some []
      else do {
        (lhs_i, rhs_i, x, y, go) \<leftarrow>
          binary_div_operands num_dims dims lhs lhs_strides rhs rhs_strides grad_out_buf
            out_strides i;
        Some [AtomicAdd Grad_lhs (unat lhs_i) (sc_mul T (dfdx T y) go),
              AtomicAdd Grad_rhs (unat rhs_i) (sc_mul T (dfdy T x y) go)] })"

text \<open>
  An execution of the kernel performs the atomic additions of all its threads, one after
  the other in some order: \<open>schedule\<close> is any arrangement of them.
\<close>

definition execute :: "'a scalar \<Rightarrow> 'a atomic_add list \<Rightarrow> 'a div_grads \<Rightarrow> 'a div_grads option" where
  "execute T schedule g = for_each schedule (atomicAdd T) g"

text \<open>The values that a list of atomic additions adds to one offset of one buffer, in order.\<close>

definition added_to :: "grad_buffer \<Rightarrow> nat \<Rightarrow> 'a atomic_add list \<Rightarrow> 'a list" where
  "added_to buf k adds = map addend (filter (\<lambda>a. buffer a = buf \<and> offset a = k) adds)"

section \<open>2D pooling\<close>

record Pool2dOp =
  kernel :: size_t
  stride :: size_t
  padding :: size_t
  batch :: size_t
  chan :: size_t
  h_in :: size_t
  h_out :: size_t
  w_in :: size_t
  w_out :: size_t

text \<open>
  Every pooling kernel splits its thread index into four coordinates, innermost first:
  \<open>idx % w; idx /= w; idx % h; idx /= h; idx % chan; idx /= chan; idx % batch\<close>, where
  \<open>idx\<close> is an \<open>unsigned int\<close> and the extents are \<open>size_t\<close>. The result is
  \<open>(x, y, c, b)\<close>.
\<close>

definition split_index :: "uint \<Rightarrow> size_t \<Rightarrow> size_t \<Rightarrow> size_t \<Rightarrow> size_t
    \<Rightarrow> (size_t \<times> size_t \<times> size_t \<times> size_t) option" where
  "split_index i w h ch bt =
     (if w = 0 \<or> h = 0 \<or> ch = 0 \<or> bt = 0 then None
      else
        let idx = i;
            x = ucast idx mod w;
            idx = (ucast (ucast idx div w) :: uint);
            y = ucast idx mod h;
            idx = (ucast (ucast idx div h) :: uint);
            c = ucast idx mod ch;
            idx = (ucast (ucast idx div ch) :: uint);
            b = ucast idx mod bt
        in Some (x, y, c, b))"

text \<open>
  \<open>b * strides[0] + c * strides[1] + y * strides[2] + x * strides[3]\<close>, in \<open>size_t\<close>.
\<close>

definition offset4 :: "size_t list \<Rightarrow> size_t \<Rightarrow> size_t \<Rightarrow> size_t \<Rightarrow> size_t \<Rightarrow> size_t option" where
  "offset4 strides b c y x =
     (if length strides < 4 then None
      else Some (b * strides ! 0 + c * strides ! 1 + y * strides ! 2 + x * strides ! 3))"

text \<open>
  The body of the forward window loop up to the four \<open>continue\<close> statements: the input
  position that offset \<open>(k1, k2)\<close> of the window of output position \<open>(oh, ow)\<close> reads, or
  \<open>None\<close> when the iteration is skipped.
\<close>

definition forward_window :: "Pool2dOp \<Rightarrow> size_t \<Rightarrow> size_t \<Rightarrow> size_t \<Rightarrow> size_t
    \<Rightarrow> (size_t \<times> size_t) option" where
  "forward_window op oh ow k1 k2 =
     (let y_plus_p = oh * stride op + k1 in
      if y_plus_p < padding op then None
      else
        let y = y_plus_p - padding op in
        if y \<ge> h_in op then None
        else
          let x_plus_p = ow * stride op + k2 in
          if x_plus_p < padding op then None
          else
            let x = x_plus_p - padding op in
            if x \<ge> w_in op then None
            else Some (y, x))"

text \<open>
  The body of the backward window loop up to its six \<open>continue\<close> statements. The outer
  \<open>None\<close> is the remainder by a zero stride; \<open>Some None\<close> is a skipped iteration;
  \<open>Some (Some (oh, ow))\<close> is the candidate output position that is visited.
\<close>

definition backward_window :: "Pool2dOp \<Rightarrow> size_t \<Rightarrow> size_t \<Rightarrow> size_t \<Rightarrow> size_t
    \<Rightarrow> (size_t \<times> size_t) option option" where
  "backward_window op y x k1 k2 =
     (let oh = y + padding op in
      if oh < k1 then Some None
      else
        let oh = oh - k1 in
        if stride op = 0 then None
        else if oh mod stride op \<noteq> 0 then Some None
        else
          let oh = oh div stride op in
          if oh \<ge> h_out op then Some None
          else
            let ow = x + padding op in
            if ow < k2 then Some None
            else
              let ow = ow - k2 in
              if ow mod stride op \<noteq> 0 then Some None
              else
                let ow = ow div stride op in
                if ow \<ge> w_out op then Some None
                else Some (Some (oh, ow)))"

text \<open>
  The two nested loops over the window, shared by the three forward kernels, which differ
  in how a value read from the input is combined into \<open>tmp\<close>.
\<close>

definition forward_loop :: "('a \<Rightarrow> 'a \<Rightarrow> 'a) \<Rightarrow> Pool2dOp \<Rightarrow> size_t list \<Rightarrow> 'a list
    \<Rightarrow> size_t \<Rightarrow> size_t \<Rightarrow> size_t \<Rightarrow> size_t \<Rightarrow> 'a \<Rightarrow> 'a option" where
  "forward_loop combine op inp_strides inp b c oh ow tmp0 =
     for_each (upto_size (kernel op))
       (\<lambda>k1. for_each (upto_size (kernel op))
          (\<lambda>k2 tmp.
             case forward_window op oh ow k1 k2 of
               None \<Rightarrow> Some tmp
             | Some (y, x) \<Rightarrow> do {
                 inp_i \<leftarrow> offset4 inp_strides b c y x;
                 v \<leftarrow> load inp (unat inp_i);
                 Some (combine tmp v) }))
       tmp0"

definition maxNonAtomic :: "'a scalar \<Rightarrow> 'a \<Rightarrow> 'a \<Rightarrow> 'a" where
  "maxNonAtomic T a b = sc_fmax T a b"

definition minNonAtomic :: "'a scalar \<Rightarrow> 'a \<Rightarrow> 'a \<Rightarrow> 'a" where
  "minNonAtomic T a b = sc_fmin T a b"

text \<open>
  The forward kernels, as the body of thread \<open>i\<close>: the buffer \<open>out\<close> before, the buffer
  \<open>out\<close> after.
\<close>

definition avg_pool2d_forward :: "'a scalar \<Rightarrow> Pool2dOp \<Rightarrow> size_t list \<Rightarrow> size_t list
    \<Rightarrow> 'a list \<Rightarrow> 'a list \<Rightarrow> uint \<Rightarrow> 'a list option" where
  "avg_pool2d_forward T op inp_strides out_strides inp out i =
     (let numel = batch op * chan op * h_out op * w_out op in
      if ucast i \<ge> numel then Some out
      else do {
        (ow, oh, c, b) \<leftarrow> split_index i (w_out op) (h_out op) (chan op) (batch op);
        tmp \<leftarrow> forward_loop (sc_add T) op inp_strides inp b c oh ow (sc_zero T);
        store out (unat i) (sc_div T tmp (sc_cast T (kernel op * kernel op))) })"

definition max_pool2d_forward :: "'a scalar \<Rightarrow> Pool2dOp \<Rightarrow> size_t list \<Rightarrow> size_t list
    \<Rightarrow> 'a list \<Rightarrow> 'a list \<Rightarrow> uint \<Rightarrow> 'a list option" where
  "max_pool2d_forward T op inp_strides out_strides inp out i =
     (let numel = batch op * chan op * h_out op * w_out op in
      if ucast i \<ge> numel then Some out
      else do {
        (ow, oh, c, b) \<leftarrow> split_index i (w_out op) (h_out op) (chan op) (batch op);
        tmp \<leftarrow> forward_loop (maxNonAtomic T) op inp_strides inp b c oh ow
                 (sc_neg T (sc_inf T));
        store out (unat i) tmp })"

definition min_pool2d_forward :: "'a scalar \<Rightarrow> Pool2dOp \<Rightarrow> size_t list \<Rightarrow> size_t list
    \<Rightarrow> 'a list \<Rightarrow> 'a list \<Rightarrow> uint \<Rightarrow> 'a list option" where
  "min_pool2d_forward T op inp_strides out_strides inp out i =
     (let numel = batch op * chan op * h_out op * w_out op in
      if ucast i \<ge> numel then Some out
      else do {
        (ow, oh, c, b) \<leftarrow> split_index i (w_out op) (h_out op) (chan op) (batch op);
        tmp \<leftarrow> forward_loop (minNonAtomic T) op inp_strides inp b c oh ow (sc_inf T);
        store out (unat i) tmp })"

text \<open>
  The four buffers of a backward kernel. Only \<open>grad_inp\<close> is not \<open>const\<close>. The buffers
  are distinct allocations.
\<close>

record 'a pool_bufs =
  inp :: "'a list"
  grad_inp :: "'a list"
  out :: "'a list"
  grad_out :: "'a list"

text \<open>
  The two nested loops of the backward kernels; \<open>visit out_i tmp\<close> is what the kernel
  does at a visited output offset.
\<close>

definition backward_loop :: "Pool2dOp \<Rightarrow> size_t list \<Rightarrow> size_t \<Rightarrow> size_t \<Rightarrow> size_t \<Rightarrow> size_t
    \<Rightarrow> (size_t \<Rightarrow> 'a \<Rightarrow> 'a option) \<Rightarrow> 'a \<Rightarrow> 'a option" where
  "backward_loop op out_strides b c y x visit tmp0 =
     for_each (upto_size (kernel op))
       (\<lambda>k1. for_each (upto_size (kernel op))
          (\<lambda>k2 tmp.
             case backward_window op y x k1 k2 of
               None \<Rightarrow> None
             | Some None \<Rightarrow> Some tmp
             | Some (Some (oh, ow)) \<Rightarrow> do {
                 out_i \<leftarrow> offset4 out_strides b c oh ow;
                 visit out_i tmp }))
       tmp0"

text \<open>\<open>tmp += grad_out[out_i]\<close>\<close>

definition accumulate :: "'a scalar \<Rightarrow> 'a list \<Rightarrow> size_t \<Rightarrow> 'a \<Rightarrow> 'a option" where
  "accumulate T grad_out_buf out_i tmp = do {
     g \<leftarrow> load grad_out_buf (unat out_i);
     Some (sc_add T tmp g) }"

text \<open>\<open>if (out[out_i] == inp_v) { tmp += grad_out[out_i]; }\<close>\<close>

definition accumulate_if_equal :: "'a scalar \<Rightarrow> 'a list \<Rightarrow> 'a list \<Rightarrow> 'a \<Rightarrow> size_t \<Rightarrow> 'a
    \<Rightarrow> 'a option" where
  "accumulate_if_equal T out_buf grad_out_buf inp_v out_i tmp = do {
     o_v \<leftarrow> load out_buf (unat out_i);
     if sc_eq T o_v inp_v then accumulate T grad_out_buf out_i tmp else Some tmp }"

text \<open>The loop of \<open>avg_pool2d_backward\<close> (lines 145 to 165): the value of \<open>tmp\<close> after it.\<close>

definition avg_pool2d_backward_tmp :: "'a scalar \<Rightarrow> Pool2dOp \<Rightarrow> size_t list \<Rightarrow> 'a pool_bufs
    \<Rightarrow> uint \<Rightarrow> 'a option" where
  "avg_pool2d_backward_tmp T op out_strides m i = do {
     (x, y, c, b) \<leftarrow> split_index i (w_in op) (h_in op) (chan op) (batch op);
     backward_loop op out_strides b c y x (accumulate T (grad_out m)) (sc_zero T) }"

definition avg_pool2d_backward :: "'a scalar \<Rightarrow> Pool2dOp \<Rightarrow> size_t list \<Rightarrow> size_t list
    \<Rightarrow> uint \<Rightarrow> 'a pool_bufs \<Rightarrow> 'a pool_bufs option" where
  "avg_pool2d_backward T op inp_strides out_strides i m =
     (let numel = batch op * chan op * h_in op * w_in op in
      if ucast i \<ge> numel then Some m
      else do {
        tmp \<leftarrow> avg_pool2d_backward_tmp T op out_strides m i;
        g \<leftarrow> load (grad_inp m) (unat i);
        Some (m\<lparr>grad_inp := (grad_inp m)
                 [unat i := sc_add T g (sc_div T tmp (sc_cast T (kernel op * kernel op)))]\<rparr>) })"

text \<open>
  The loop of \<open>max_pool2d_backward\<close> (lines 248 to 273), with the read of \<open>inp[i]\<close>
  before it, and that of \<open>min_pool2d_backward\<close> (lines 356 to 381), which is the same
  text.
\<close>

definition max_pool2d_backward_tmp :: "'a scalar \<Rightarrow> Pool2dOp \<Rightarrow> size_t list \<Rightarrow> 'a pool_bufs
    \<Rightarrow> uint \<Rightarrow> 'a option" where
  "max_pool2d_backward_tmp T op out_strides m i = do {
     (x, y, c, b) \<leftarrow> split_index i (w_in op) (h_in op) (chan op) (batch op);
     inp_v \<leftarrow> load (inp m) (unat i);
     backward_loop op out_strides b c y x
       (accumulate_if_equal T (out m) (grad_out m) inp_v) (sc_zero T) }"

definition max_pool2d_backward :: "'a scalar \<Rightarrow> Pool2dOp \<Rightarrow> size_t list \<Rightarrow> size_t list
    \<Rightarrow> uint \<Rightarrow> 'a pool_bufs \<Rightarrow> 'a pool_bufs option" where
  "max_pool2d_backward T op inp_strides out_strides i m =
     (let numel = batch op * chan op * h_in op * w_in op in
      if ucast i \<ge> numel then Some m
      else do {
        tmp \<leftarrow> max_pool2d_backward_tmp T op out_strides m i;
        g \<leftarrow> load (grad_inp m) (unat i);
        Some (m\<lparr>grad_inp := (grad_inp m)[unat i := sc_add T g tmp]\<rparr>) })"

definition min_pool2d_backward_tmp :: "'a scalar \<Rightarrow> Pool2dOp \<Rightarrow> size_t list \<Rightarrow> 'a pool_bufs
    \<Rightarrow> uint \<Rightarrow> 'a option" where
  "min_pool2d_backward_tmp T op out_strides m i = do {
     (x, y, c, b) \<leftarrow> split_index i (w_in op) (h_in op) (chan op) (batch op);
     inp_v \<leftarrow> load (inp m) (unat i);
     backward_loop op out_strides b c y x
       (accumulate_if_equal T (out m) (grad_out m) inp_v) (sc_zero T) }"

definition min_pool2d_backward :: "'a scalar \<Rightarrow> Pool2dOp \<Rightarrow> size_t list \<Rightarrow> size_t list
    \<Rightarrow> uint \<Rightarrow> 'a pool_bufs \<Rightarrow> 'a pool_bufs option" where
  "min_pool2d_backward T op inp_strides out_strides i m =
     (let numel = batch op * chan op * h_in op * w_in op in
      if ucast i \<ge> numel then Some m
      else do {
        tmp \<leftarrow> min_pool2d_backward_tmp T op out_strides m i;
        g \<leftarrow> load (grad_inp m) (unat i);
        Some (m\<lparr>grad_inp := (grad_inp m)[unat i := sc_add T g tmp]\<rparr>) })"

section \<open>relu\<close>

text \<open>
  The derivative that \<open>relu.cu\<close> passes to \<open>UNARY_OP\<close> for \<open>relu_backward_f32\<close> and
  \<open>relu_backward_f64\<close>: \<open>x > 0.0 ? 1.0 : 0.0\<close>.
\<close>

definition relu_backward :: "'a scalar \<Rightarrow> 'a \<Rightarrow> 'a" where
  "relu_backward T x = (if sc_gt T x (sc_zero T) then sc_one T else sc_zero T)"

section \<open>The windows as lists\<close>

text \<open>
  The offsets \<open>(k1, k2)\<close> in the order in which the two nested loops run through them,
  the input positions that the forward loop of an output position reads (those offsets
  that no \<open>continue\<close> skips), the values it reads there, and the output positions that the
  backward loop of an input position visits, with their offsets into \<open>out\<close> and
  \<open>grad_out\<close>.
\<close>

definition window_offsets :: "Pool2dOp \<Rightarrow> (size_t \<times> size_t) list" where
  "window_offsets op = List.product (upto_size (kernel op)) (upto_size (kernel op))"

definition forward_reads :: "Pool2dOp \<Rightarrow> size_t \<Rightarrow> size_t \<Rightarrow> (size_t \<times> size_t) list" where
  "forward_reads op oh ow =
     List.map_filter (\<lambda>(k1, k2). forward_window op oh ow k1 k2) (window_offsets op)"


definition backward_visits :: "Pool2dOp \<Rightarrow> size_t \<Rightarrow> size_t \<Rightarrow> (size_t \<times> size_t) list" where
  "backward_visits op y x =
     List.map_filter
       (\<lambda>(k1, k2). case backward_window op y x k1 k2 of None \<Rightarrow> None | Some v \<Rightarrow> v)
       (window_offsets op)"

definition backward_offsets :: "Pool2dOp \<Rightarrow> size_t list \<Rightarrow> size_t \<Rightarrow> size_t \<Rightarrow> size_t
    \<Rightarrow> size_t \<Rightarrow> nat list" where
  "backward_offsets op out_strides b c y x =
     map (\<lambda>(oh, ow). unat (b * out_strides ! 0 + c * out_strides ! 1
                             + oh * out_strides ! 2 + ow * out_strides ! 3))
       (backward_visits op y x)"

section \<open>Concrete descriptors and buffers\<close>



text \<open>
  A descriptor with \<open>kernel = 0\<close>: a 1 x 1 input, stride 1, no padding, and the 2 x 2
  output that the output-size formula gives.
\<close>

definition op_empty_window :: Pool2dOp where
  "op_empty_window = \<lparr>kernel = 0, stride = 1, padding = 0, batch = 1, chan = 1,
                      h_in = 1, h_out = 2, w_in = 1, w_out = 2\<rparr>"


definition strides_3x3 :: "size_t list" where
  "strides_3x3 = [9, 9, 3, 1]"



text \<open>
  A descriptor whose border windows lie in the padding: a 1 x 1 input, a 1 x 1 window,
  stride 1, padding 1, and the 3 x 3 output that the output-size formula gives. Only the
  window of output position \<open>(1, 1)\<close> reads the input.
\<close>

definition op_border :: Pool2dOp where
  "op_border = \<lparr>kernel = 1, stride = 1, padding = 1, batch = 1, chan = 1,
                h_in = 1, h_out = 3, w_in = 1, w_out = 3\<rparr>"

definition sevens_3x3 :: "ieee list" where
  "sevens_3x3 = replicate 9 (Fin 7)"

text \<open>
  A descriptor with a single window: a 2 x 2 input, a 2 x 2 window, stride 1, no padding,
  a 1 x 1 output. The input holds its maximum 5 twice; \<open>out\<close> holds the forward result of
  max pooling, and the gradient buffer is not zero before the backward pass.
\<close>

definition op_single_window :: Pool2dOp where
  "op_single_window = \<lparr>kernel = 2, stride = 1, padding = 0, batch = 1, chan = 1,
                       h_in = 2, h_out = 1, w_in = 2, w_out = 1\<rparr>"

definition strides_2x2 :: "size_t list" where
  "strides_2x2 = [4, 4, 2, 1]"

definition strides_1x1 :: "size_t list" where
  "strides_1x1 = [1, 1, 1, 1]"

definition tie_bufs :: "ieee pool_bufs" where
  "tie_bufs = \<lparr>inp = [Fin 5, Fin 5, Fin 1, Fin 2],
               grad_inp = [Fin 10, Fin 20, Fin 30, Fin 40],
               out = [Fin 5],
               grad_out = [Fin 3]\<rparr>"

section \<open>Properties\<close>

subsection \<open>Arithmetic of \<open>size_t\<close> without wrap-around\<close>



subsection \<open>The backward window inverts the forward window\<close>














subsection \<open>The derivative of relu\<close>

text \<open>
  C7. The derivative that the relu backward kernel uses is exactly 1.0 for every input
  greater than zero and exactly 0.0 for every input less than or equal to zero; the
  boundary \<open>x == 0\<close> gives 0.0. The comparison and the two constants involve no rounding,
  so the scalar type \<open>exact\<close> represents them as the device computes them; a
  not-a-number input, which is neither greater than nor at most zero, is outside the
  statement.
\<close>

theorem relu_backward_zero_or_one:
  "(ieee_gt x (Fin 0) \<longrightarrow> relu_backward exact x = Fin 1)
   \<and> (ieee_le x (Fin 0) \<longrightarrow> relu_backward exact x = Fin 0)
   \<and> relu_backward exact (Fin 0) = Fin 0"
  by (cases x) (simp_all add: relu_backward_def exact_def ieee_le_def)

theorem relu_backward_zero_or_one_witness:
  "ieee_gt (Fin 2) (Fin 0) \<and> relu_backward exact (Fin 2) = Fin 1
   \<and> ieee_le (Fin (- 3)) (Fin 0) \<and> relu_backward exact (Fin (- 3)) = Fin 0
   \<and> ieee_le (Fin 0) (Fin 0) \<and> relu_backward exact (Fin 0) = Fin 0"
  using relu_backward_zero_or_one [of "Fin 2"] relu_backward_zero_or_one [of "Fin (- 3)"]
    relu_backward_zero_or_one [of "Fin 0"]
  by (simp add: ieee_le_def)

subsection \<open>Loops\<close>

lemma for_each_append:
  "for_each (xs @ ys) body s =
     (case for_each xs body s of None \<Rightarrow> None | Some s' \<Rightarrow> for_each ys body s')"
  by (induction xs arbitrary: s) (auto split: option.splits)

lemma for_each_map:
  "for_each (map g xs) body s = for_each xs (\<lambda>k. body (g k)) s"
  by (induction xs arbitrary: s) (auto split: option.splits)

lemma for_each_product:
  "for_each xs (\<lambda>a. for_each ys (body a)) s
     = for_each (List.product xs ys) (\<lambda>(a, b). body a b) s"
  by (induction xs arbitrary: s) (auto simp: for_each_append for_each_map split: option.splits)

lemma for_each_map_filter:
  assumes "\<And>k s. k \<in> set ks \<Longrightarrow>
      body k s = (case sel k of None \<Rightarrow> Some s | Some p \<Rightarrow> act p s)"
  shows "for_each ks body s = for_each (List.map_filter sel ks) act s"
  using assms
proof (induction ks arbitrary: s)
  case Nil
  then show ?case by (simp add: List.map_filter_simps)
next
  case (Cons k ks)
  then show ?case
    by (cases "sel k") (auto simp: List.map_filter_simps split: option.splits)
qed

lemma for_each_cong:
  assumes "\<And>k s. k \<in> set ks \<Longrightarrow> body k s = body' k s"
  shows "for_each ks body s = for_each ks body' s"
  using assms by (induction ks arbitrary: s) (auto split: option.splits)

subsection \<open>The forward window loop\<close>

lemma forward_loop_reads:
  "forward_loop comb op inp_strides inp_buf b c oh ow t0 =
     for_each (forward_reads op oh ow)
       (\<lambda>(y, x) tmp. do {
          inp_i \<leftarrow> offset4 inp_strides b c y x;
          v \<leftarrow> load inp_buf (unat inp_i);
          Some (comb tmp v) }) t0"
  unfolding forward_loop_def forward_reads_def window_offsets_def for_each_product
  by (rule for_each_map_filter) (auto split: option.splits)




lemma forward_loop_no_reads:
  assumes "forward_reads op oh ow = []"
  shows "forward_loop comb op inp_strides inp_buf b c oh ow t0 = Some t0"
  by (simp add: forward_loop_reads assms)

lemma product_nonzero:
  fixes a b c d :: size_t
  assumes "i < a * b * c * d"
  shows "a \<noteq> 0 \<and> b \<noteq> 0 \<and> c \<noteq> 0 \<and> d \<noteq> 0"
  using assms by (auto simp: word_less_nat_alt)

lemma split_index_defined:
  assumes "ucast i < bt * ch * h * w"
  shows "split_index i w h ch bt \<noteq> None"
  using product_nonzero [OF assms] by (simp add: split_index_def Let_def)


subsection \<open>Average pooling divides by the nominal window area\<close>










subsection \<open>Windows that read nothing\<close>

lemma map_filter_all_None:
  "(\<forall>x \<in> set xs. f x = None) \<Longrightarrow> List.map_filter f xs = []"
  by (induction xs) (auto simp: List.map_filter_simps)

lemma forward_reads_all_skipped:
  assumes "\<forall>(k1, k2) \<in> set (window_offsets op). forward_window op oh ow k1 k2 = None"
  shows "forward_reads op oh ow = []"
  unfolding forward_reads_def using assms by (intro map_filter_all_None) auto

text \<open>
  C10, as amended. For an output position all of whose window offsets are skipped, the
  forward kernels still write a value: avg-pool writes \<open>0.0 / (T)(kernel * kernel)\<close>,
  which is 0.0 when \<open>kernel * kernel\<close> is nonzero in \<open>size_t\<close>; max-pool writes its
  seed \<open>-INFINITY\<close>, negative infinity; min-pool writes its seed \<open>INFINITY\<close>, positive
  infinity. The three results hold for every scalar arithmetic; the last three conjuncts
  name the values on IEEE values (no rounding is involved in them).
\<close>

theorem forward_all_skipped:
  assumes range: "ucast i < batch op * chan op * h_out op * w_out op"
    and split: "split_index i (w_out op) (h_out op) (chan op) (batch op) = Some (ow, oh, c, b)"
    and skipped: "\<forall>(k1, k2) \<in> set (window_offsets op). forward_window op oh ow k1 k2 = None"
    and len: "unat i < length out_buf"
  shows "avg_pool2d_forward T op inp_strides out_strides inp_buf out_buf i
           = Some (out_buf[unat i := sc_div T (sc_zero T) (sc_cast T (kernel op * kernel op))])
       \<and> max_pool2d_forward T op inp_strides out_strides inp_buf out_buf i
           = Some (out_buf[unat i := sc_neg T (sc_inf T)])
       \<and> min_pool2d_forward T op inp_strides out_strides inp_buf out_buf i
           = Some (out_buf[unat i := sc_inf T])
       \<and> (kernel op * kernel op \<noteq> 0 \<longrightarrow>
            sc_div exact (sc_zero exact) (sc_cast exact (kernel op * kernel op)) = Fin 0)
       \<and> sc_neg exact (sc_inf exact) = NInf
       \<and> sc_inf exact = PInf"
proof -
  have l: "forward_loop comb op inp_strides inp_buf b c oh ow t0 = Some t0" for comb and t0 :: 'a
    using forward_reads_all_skipped [OF skipped] by (rule forward_loop_no_reads)
  have r: "\<not> batch op * chan op * h_out op * w_out op \<le> ucast i"
    using range by (simp add: not_le)
  have "avg_pool2d_forward T op inp_strides out_strides inp_buf out_buf i
           = Some (out_buf[unat i := sc_div T (sc_zero T) (sc_cast T (kernel op * kernel op))])"
    by (simp add: avg_pool2d_forward_def r split l store_def len)
  moreover have "max_pool2d_forward T op inp_strides out_strides inp_buf out_buf i
           = Some (out_buf[unat i := sc_neg T (sc_inf T)])"
    by (simp add: max_pool2d_forward_def r split l store_def len)
  moreover have "min_pool2d_forward T op inp_strides out_strides inp_buf out_buf i
           = Some (out_buf[unat i := sc_inf T])"
    by (simp add: min_pool2d_forward_def r split l store_def len)
  moreover have "kernel op * kernel op \<noteq> 0 \<longrightarrow>
      sc_div exact (sc_zero exact) (sc_cast exact (kernel op * kernel op)) = Fin 0"
    by (simp add: exact_def unsigned_eq_0_iff)
  moreover have "sc_neg exact (sc_inf exact) = NInf" "sc_inf exact = PInf"
    by (simp_all add: exact_def)
  ultimately show ?thesis by blast
qed

text \<open>
  The theorem at output position \<open>(0, 0)\<close> of the border descriptor, whose window lies
  in the padding.
\<close>

theorem forward_all_skipped_witness:
  "ucast (0 :: uint) < batch op_border * chan op_border * h_out op_border * w_out op_border
   \<and> split_index 0 (w_out op_border) (h_out op_border) (chan op_border) (batch op_border)
       = Some (0, 0, 0, 0)
   \<and> \<not> (\<exists>(k1, k2) \<in> set (window_offsets op_border). forward_window op_border 0 0 k1 k2 \<noteq> None)
   \<and> unat (0 :: uint) < length sevens_3x3
   \<and> kernel op_border * kernel op_border \<noteq> 0
   \<and> avg_pool2d_forward exact op_border [1, 1, 1, 1] strides_3x3 [Fin 5] sevens_3x3 0
       = Some (sevens_3x3[0 := Fin 0])
   \<and> max_pool2d_forward exact op_border [1, 1, 1, 1] strides_3x3 [Fin 5] sevens_3x3 0
       = Some (sevens_3x3[0 := NInf])
   \<and> min_pool2d_forward exact op_border [1, 1, 1, 1] strides_3x3 [Fin 5] sevens_3x3 0
       = Some (sevens_3x3[0 := PInf])"
proof -
  have r: "ucast (0 :: uint) < batch op_border * chan op_border * h_out op_border * w_out op_border"
    by (simp add: op_border_def)
  have s: "split_index 0 (w_out op_border) (h_out op_border) (chan op_border) (batch op_border)
       = Some (0, 0, 0, 0)"
    by code_simp
  have w: "\<forall>(k1, k2) \<in> set (window_offsets op_border). forward_window op_border 0 0 k1 k2 = None"
    by code_simp
  have l: "unat (0 :: uint) < length sevens_3x3"
    by (simp add: sevens_3x3_def)
  have k: "kernel op_border * kernel op_border \<noteq> 0"
    by (simp add: op_border_def)
  note t = forward_all_skipped [OF r s w l, where T = exact and inp_strides = "[1, 1, 1, 1]"
      and out_strides = strides_3x3 and inp_buf = "[Fin 5]"]
  from w have nw: "\<not> (\<exists>(k1, k2) \<in> set (window_offsets op_border).
      forward_window op_border 0 0 k1 k2 \<noteq> None)"
    by fastforce
  from t k have d: "sc_div exact (sc_zero exact)
        (sc_cast exact (kernel op_border * kernel op_border)) = Fin 0"
    and n: "sc_neg exact (sc_inf exact) = NInf" and p: "sc_inf exact = PInf"
    by blast+
  from t have "avg_pool2d_forward exact op_border [1, 1, 1, 1] strides_3x3 [Fin 5] sevens_3x3 0
       = Some (sevens_3x3[unat (0 :: uint) := sc_div exact (sc_zero exact)
            (sc_cast exact (kernel op_border * kernel op_border))])"
    and "max_pool2d_forward exact op_border [1, 1, 1, 1] strides_3x3 [Fin 5] sevens_3x3 0
       = Some (sevens_3x3[unat (0 :: uint) := sc_neg exact (sc_inf exact)])"
    and "min_pool2d_forward exact op_border [1, 1, 1, 1] strides_3x3 [Fin 5] sevens_3x3 0
       = Some (sevens_3x3[unat (0 :: uint) := sc_inf exact])"
    by blast+
  then have "avg_pool2d_forward exact op_border [1, 1, 1, 1] strides_3x3 [Fin 5] sevens_3x3 0
       = Some (sevens_3x3[0 := Fin 0])"
    and "max_pool2d_forward exact op_border [1, 1, 1, 1] strides_3x3 [Fin 5] sevens_3x3 0
       = Some (sevens_3x3[0 := NInf])"
    and "min_pool2d_forward exact op_border [1, 1, 1, 1] strides_3x3 [Fin 5] sevens_3x3 0
       = Some (sevens_3x3[0 := PInf])"
    by (simp_all only: d n [unfolded p] p unat_0)
  with r s nw l k show ?thesis by blast
qed

text \<open>
  As stated, for every descriptor, the avg-pool part fails at \<open>kernel = 0\<close>: every window
  offset is skipped since there is none, and the kernel writes \<open>0.0 / 0.0\<close>, not-a-number.
\<close>

theorem forward_all_skipped_counterexample:
  "\<not> (\<forall>op inp_strides out_strides inp_buf out_buf i ow oh c b.
        ucast i < batch op * chan op * h_out op * w_out op
        \<and> split_index i (w_out op) (h_out op) (chan op) (batch op) = Some (ow, oh, c, b)
        \<and> (\<forall>(k1, k2) \<in> set (window_offsets op). forward_window op oh ow k1 k2 = None)
        \<and> unat i < length out_buf
        \<longrightarrow> avg_pool2d_forward exact op inp_strides out_strides inp_buf out_buf i
              = Some (out_buf[unat i := Fin 0]))"
proof
  assume a: "\<forall>op inp_strides out_strides inp_buf out_buf i ow oh c b.
        ucast i < batch op * chan op * h_out op * w_out op
        \<and> split_index i (w_out op) (h_out op) (chan op) (batch op) = Some (ow, oh, c, b)
        \<and> (\<forall>(k1, k2) \<in> set (window_offsets op). forward_window op oh ow k1 k2 = None)
        \<and> unat i < length out_buf
        \<longrightarrow> avg_pool2d_forward exact op inp_strides out_strides inp_buf out_buf i
              = Some (out_buf[unat i := Fin 0])"
  have r: "ucast (0 :: uint) < batch op_empty_window * chan op_empty_window
        * h_out op_empty_window * w_out op_empty_window"
    by (simp add: op_empty_window_def)
  have s: "split_index 0 (w_out op_empty_window) (h_out op_empty_window) (chan op_empty_window)
        (batch op_empty_window) = Some (0, 0, 0, 0)"
    by code_simp
  have w: "\<forall>(k1, k2) \<in> set (window_offsets op_empty_window).
        forward_window op_empty_window 0 0 k1 k2 = None"
    by code_simp
  have l: "unat (0 :: uint) < length [Fin 7, Fin 7, Fin 7, Fin 7]"
    by simp
  have run: "avg_pool2d_forward exact op_empty_window [1, 1, 1, 1] [4, 4, 2, 1] [Fin 1]
        [Fin 7, Fin 7, Fin 7, Fin 7] 0 = Some [NaN, Fin 7, Fin 7, Fin 7]"
    by code_simp
  from a r s w l
  have "avg_pool2d_forward exact op_empty_window [1, 1, 1, 1] [4, 4, 2, 1] [Fin 1]
        [Fin 7, Fin 7, Fin 7, Fin 7] 0 = Some ([Fin 7, Fin 7, Fin 7, Fin 7][unat (0 :: uint) := Fin 0])"
    by blast
  with run show False by simp
qed

subsection \<open>The backward window loop\<close>

lemma for_each_Some_map_filter:
  assumes "for_each ks body s = Some r"
    and "\<And>k s. k \<in> set ks \<Longrightarrow>
      body k s = (case sel k of None \<Rightarrow> None | Some None \<Rightarrow> Some s | Some (Some p) \<Rightarrow> act p s)"
  shows "for_each (List.map_filter (\<lambda>k. case sel k of None \<Rightarrow> None | Some v \<Rightarrow> v) ks) act s
      = Some r"
  using assms
proof (induction ks arbitrary: s)
  case Nil
  then show ?case by (simp add: List.map_filter_simps)
next
  case (Cons k ks)
  then show ?case
    by (cases "sel k") (auto simp: List.map_filter_simps split: option.splits)
qed

lemma backward_loop_visits:
  assumes "backward_loop op out_strides b c y x visit t0 = Some r"
  shows "for_each (backward_visits op y x)
       (\<lambda>(oh, ow) tmp. do { out_i \<leftarrow> offset4 out_strides b c oh ow; visit out_i tmp }) t0
     = Some r"
proof -
  have "for_each (window_offsets op)
      (\<lambda>(k1, k2) tmp. case backward_window op y x k1 k2 of
               None \<Rightarrow> None
             | Some None \<Rightarrow> Some tmp
             | Some (Some (oh, ow)) \<Rightarrow> do {
                 out_i \<leftarrow> offset4 out_strides b c oh ow;
                 visit out_i tmp }) t0 = Some r"
    using assms unfolding backward_loop_def window_offsets_def for_each_product .
  then have "for_each
      (List.map_filter
         (\<lambda>k. case (case k of (k1, k2) \<Rightarrow> backward_window op y x k1 k2) of
                None \<Rightarrow> None | Some v \<Rightarrow> v)
         (window_offsets op))
      (\<lambda>(oh, ow) tmp. do { out_i \<leftarrow> offset4 out_strides b c oh ow; visit out_i tmp }) t0
    = Some r"
    by (rule for_each_Some_map_filter) (auto split: option.splits)
  moreover have "(\<lambda>k. case (case k of (k1, k2) \<Rightarrow> backward_window op y x k1 k2) of
                None \<Rightarrow> None | Some v \<Rightarrow> v)
      = (\<lambda>(k1, k2). case backward_window op y x k1 k2 of None \<Rightarrow> None | Some v \<Rightarrow> v)"
    by (auto simp: fun_eq_iff)
  ultimately show ?thesis
    unfolding backward_visits_def by simp
qed

lemma visits_accumulate:
  assumes "for_each ps
       (\<lambda>(oh, ow) tmp. do {
          out_i \<leftarrow> offset4 out_strides b c oh ow;
          accumulate T gob out_i tmp }) t0 = Some r"
  shows "r = foldl (sc_add T) t0
      (map (\<lambda>k. gob ! k)
         (map (\<lambda>(oh, ow). unat (b * out_strides ! 0 + c * out_strides ! 1
                                 + oh * out_strides ! 2 + ow * out_strides ! 3)) ps))"
  using assms
proof (induction ps arbitrary: t0)
  case Nil
  then show ?case by simp
next
  case (Cons p ps)
  obtain oh ow where p: "p = (oh, ow)" by (cases p)
  from Cons.prems obtain t1 where
    s: "(do { out_i \<leftarrow> offset4 out_strides b c oh ow; accumulate T gob out_i t0 }) = Some t1"
    and r: "for_each ps
       (\<lambda>(oh, ow) tmp. do {
          out_i \<leftarrow> offset4 out_strides b c oh ow;
          accumulate T gob out_i tmp }) t1 = Some r"
    by (auto simp: p split: option.splits)
  from s have "t1 = sc_add T t0 (gob ! unat (b * out_strides ! 0 + c * out_strides ! 1
                                 + oh * out_strides ! 2 + ow * out_strides ! 3))"
    by (auto simp: offset4_def accumulate_def load_def split: if_splits bind_splits)
  with Cons.IH [OF r] show ?case by (simp add: p)
qed

lemma visits_accumulate_if_equal:
  assumes "for_each ps
       (\<lambda>(oh, ow) tmp. do {
          out_i \<leftarrow> offset4 out_strides b c oh ow;
          accumulate_if_equal T ob gob v out_i tmp }) t0 = Some r"
  shows "r = foldl (sc_add T) t0
      (map (\<lambda>k. gob ! k)
         (filter (\<lambda>k. sc_eq T (ob ! k) v)
            (map (\<lambda>(oh, ow). unat (b * out_strides ! 0 + c * out_strides ! 1
                                 + oh * out_strides ! 2 + ow * out_strides ! 3)) ps)))"
  using assms
proof (induction ps arbitrary: t0)
  case Nil
  then show ?case by simp
next
  case (Cons p ps)
  obtain oh ow where p: "p = (oh, ow)" by (cases p)
  define k where "k = unat (b * out_strides ! 0 + c * out_strides ! 1
                                 + oh * out_strides ! 2 + ow * out_strides ! 3)"
  from Cons.prems obtain t1 where
    s: "(do { out_i \<leftarrow> offset4 out_strides b c oh ow;
              accumulate_if_equal T ob gob v out_i t0 }) = Some t1"
    and r: "for_each ps
       (\<lambda>(oh, ow) tmp. do {
          out_i \<leftarrow> offset4 out_strides b c oh ow;
          accumulate_if_equal T ob gob v out_i tmp }) t1 = Some r"
    by (auto simp: p split: option.splits)
  from s have "t1 = (if sc_eq T (ob ! k) v then sc_add T t0 (gob ! k) else t0)"
    by (auto simp: k_def offset4_def accumulate_if_equal_def accumulate_def load_def
        split: if_splits bind_splits)
  with Cons.IH [OF r] show ?case by (simp add: p k_def)
qed

lemma avg_pool2d_backward_tmp_Some:
  assumes "avg_pool2d_backward_tmp T op out_strides m i = Some tmp"
    and "split_index i (w_in op) (h_in op) (chan op) (batch op) = Some (x, y, c, b)"
  shows "tmp = foldl (sc_add T) (sc_zero T)
      (map (\<lambda>k. grad_out m ! k) (backward_offsets op out_strides b c y x))"
proof -
  from assms have "backward_loop op out_strides b c y x (accumulate T (grad_out m)) (sc_zero T)
      = Some tmp"
    by (simp add: avg_pool2d_backward_tmp_def)
  from visits_accumulate [OF backward_loop_visits [OF this]]
  show ?thesis by (simp add: backward_offsets_def)
qed

lemma max_pool2d_backward_tmp_Some:
  assumes "max_pool2d_backward_tmp T op out_strides m i = Some tmp"
    and "split_index i (w_in op) (h_in op) (chan op) (batch op) = Some (x, y, c, b)"
  shows "tmp = foldl (sc_add T) (sc_zero T)
      (map (\<lambda>k. grad_out m ! k)
         (filter (\<lambda>k. sc_eq T (out m ! k) (inp m ! unat i))
            (backward_offsets op out_strides b c y x)))"
proof -
  from assms have "backward_loop op out_strides b c y x
      (accumulate_if_equal T (out m) (grad_out m) (inp m ! unat i)) (sc_zero T) = Some tmp"
    by (auto simp: max_pool2d_backward_tmp_def load_def split: bind_splits if_splits)
  from visits_accumulate_if_equal [OF backward_loop_visits [OF this]]
  show ?thesis by (simp add: backward_offsets_def)
qed

lemma min_pool2d_backward_tmp_eq_max:
  "min_pool2d_backward_tmp T op out_strides m i = max_pool2d_backward_tmp T op out_strides m i"
  by (simp add: min_pool2d_backward_tmp_def max_pool2d_backward_tmp_def)

lemma load_update [simp]:
  "load (xs[k := v]) j = (if j < length xs then Some (if j = k then v else xs ! j) else None)"
  by (simp add: load_def)

lemma unat_uint_neq: "i \<noteq> j \<Longrightarrow> unat (i :: uint) \<noteq> unat j"
  by (simp add: word_unat_eq_iff)

lemma accumulating_threads_commute:
  fixes body :: "uint \<Rightarrow> 'a pool_bufs \<Rightarrow> 'a pool_bufs option"
  assumes step: "\<And>i m. body i m =
      (if \<not> active i then Some m
       else do {
         cv \<leftarrow> contrib m i;
         g \<leftarrow> load (grad_inp m) (unat i);
         Some (m\<lparr>grad_inp := (grad_inp m)[unat i := add g cv]\<rparr>) })"
    and frame: "\<And>m g i. contrib (m\<lparr>grad_inp := g\<rparr>) i = contrib m i"
    and neq: "i \<noteq> j"
  shows "body i m \<bind> body j = body j m \<bind> body i"
proof -
  have n: "unat i \<noteq> unat j" using neq by (rule unat_uint_neq)
  show ?thesis
  proof (cases "active i \<and> active j")
    case False
    then show ?thesis by (auto simp: step)
  next
    case True
    show ?thesis
    proof (cases "contrib m i")
      case None
      then show ?thesis using True by (auto simp: step frame split: bind_splits)
    next
      case ci: (Some ci)
      show ?thesis
      proof (cases "contrib m j")
        case None
        then show ?thesis using True by (auto simp: step frame split: bind_splits)
      next
        case cj: (Some cj)
        show ?thesis
          using True n ci cj
          by (auto simp: step frame load_def list_update_swap [of "unat i" "unat j"]
              split: bind_splits)
      qed
    qed
  qed
qed

lemma accumulating_thread_writes_own_entry:
  fixes body :: "uint \<Rightarrow> 'a pool_bufs \<Rightarrow> 'a pool_bufs option"
  assumes step: "\<And>i m. body i m =
      (if \<not> active i then Some m
       else do {
         cv \<leftarrow> contrib m i;
         g \<leftarrow> load (grad_inp m) (unat i);
         Some (m\<lparr>grad_inp := (grad_inp m)[unat i := add g cv]\<rparr>) })"
    and run: "body i m = Some m'"
  shows "\<exists>v. m' = m\<lparr>grad_inp := (grad_inp m)[unat i := v]\<rparr>"
proof (cases "active i")
  case False
  with run have "m' = m" by (simp add: step)
  then have "m' = m\<lparr>grad_inp := (grad_inp m)[unat i := grad_inp m ! unat i]\<rparr>" by simp
  then show ?thesis ..
next
  case True
  with run show ?thesis by (auto simp: step split: bind_splits)
qed

lemma launch_accumulates:
  fixes body :: "uint \<Rightarrow> 'a pool_bufs \<Rightarrow> 'a pool_bufs option"
  assumes step: "\<And>i m. body i m =
      (if \<not> active i then Some m
       else do {
         cv \<leftarrow> contrib m i;
         g \<leftarrow> load (grad_inp m) (unat i);
         Some (m\<lparr>grad_inp := (grad_inp m)[unat i := add g cv]\<rparr>) })"
    and frame: "\<And>m g i. contrib (m\<lparr>grad_inp := g\<rparr>) i = contrib m i"
    and dist: "distinct ts"
    and run: "launch ts body m = Some m'"
  shows "\<exists>g. m' = m\<lparr>grad_inp := g\<rparr> \<and> length g = length (grad_inp m)
     \<and> (\<forall>i \<in> set ts. active i \<longrightarrow>
           (\<exists>cv. contrib m i = Some cv \<and> unat i < length g
              \<and> g ! unat i = add (grad_inp m ! unat i) cv))
     \<and> (\<forall>j. (\<forall>i \<in> set ts. active i \<longrightarrow> unat i \<noteq> j) \<longrightarrow> g ! j = grad_inp m ! j)"
  using dist run
proof (induction ts arbitrary: m)
  case Nil
  then have "m' = m\<lparr>grad_inp := grad_inp m\<rparr>" by (simp add: launch_def)
  then show ?case by (intro exI [of _ "grad_inp m"]) simp
next
  case (Cons i ts)
  from Cons.prems obtain m1 where b: "body i m = Some m1" and r: "launch ts body m1 = Some m'"
    by (auto simp: launch_def split: option.splits)
  from Cons.prems have d: "distinct ts" and ni: "\<forall>i' \<in> set ts. unat i' \<noteq> unat i"
    by (auto simp: word_unat_eq_iff [symmetric])
  from Cons.IH [OF d r] obtain g where
    m': "m' = m1\<lparr>grad_inp := g\<rparr>" and lg: "length g = length (grad_inp m1)"
    and act: "\<forall>i' \<in> set ts. active i' \<longrightarrow>
           (\<exists>cv. contrib m1 i' = Some cv \<and> unat i' < length g
              \<and> g ! unat i' = add (grad_inp m1 ! unat i') cv)"
    and rest: "\<forall>j. (\<forall>i' \<in> set ts. active i' \<longrightarrow> unat i' \<noteq> j) \<longrightarrow> g ! j = grad_inp m1 ! j"
    by blast
  show ?case
  proof (cases "active i")
    case False
    with b have "m1 = m" by (simp add: step)
    with m' lg act rest False show ?thesis
      by (intro exI [of _ g]) auto
  next
    case True
    with b obtain cv where c: "contrib m i = Some cv" and l: "unat i < length (grad_inp m)"
      and m1: "m1 = m\<lparr>grad_inp := (grad_inp m)[unat i := add (grad_inp m ! unat i) cv]\<rparr>"
      by (auto simp: step load_def split: bind_splits if_splits)
    have c1: "contrib m1 i' = contrib m i'" for i'
      by (simp add: m1 frame)
    have g1: "grad_inp m1 ! j = grad_inp m ! j" if "j \<noteq> unat i" for j
      using that by (simp add: m1)
    have gi: "g ! unat i = add (grad_inp m ! unat i) cv"
      using rest ni l by (simp add: m1)
    show ?thesis
    proof (intro exI [of _ g] conjI ballI allI impI)
      show "m' = m\<lparr>grad_inp := g\<rparr>" by (simp add: m' m1)
      show "length g = length (grad_inp m)" by (simp add: lg m1)
    next
      fix i' assume i': "i' \<in> set (i # ts)" and a: "active i'"
      show "\<exists>cv. contrib m i' = Some cv \<and> unat i' < length g
              \<and> g ! unat i' = add (grad_inp m ! unat i') cv"
      proof (cases "i' = i")
        case True
        then show ?thesis using c gi l lg by (simp add: m1)
      next
        case False
        with i' have "i' \<in> set ts" by simp
        with act a ni show ?thesis by (simp add: c1 g1)
      qed
    next
      fix j assume "\<forall>i' \<in> set (i # ts). active i' \<longrightarrow> unat i' \<noteq> j"
      then have "j \<noteq> unat i" and "\<forall>i' \<in> set ts. active i' \<longrightarrow> unat i' \<noteq> j"
        using True by auto
      then show "g ! j = grad_inp m ! j" using rest by (simp add: g1)
    qed
  qed
qed

lemma avg_pool2d_backward_step:
  "avg_pool2d_backward T op inp_strides out_strides i m =
      (if \<not> ucast i < batch op * chan op * h_in op * w_in op then Some m
       else do {
         cv \<leftarrow> map_option (\<lambda>tmp. sc_div T tmp (sc_cast T (kernel op * kernel op)))
                (avg_pool2d_backward_tmp T op out_strides m i);
         g \<leftarrow> load (grad_inp m) (unat i);
         Some (m\<lparr>grad_inp := (grad_inp m)[unat i := sc_add T g cv]\<rparr>) })"
  by (cases "avg_pool2d_backward_tmp T op out_strides m i")
    (simp_all add: avg_pool2d_backward_def not_less)

lemma max_pool2d_backward_step:
  "max_pool2d_backward T op inp_strides out_strides i m =
      (if \<not> ucast i < batch op * chan op * h_in op * w_in op then Some m
       else do {
         cv \<leftarrow> max_pool2d_backward_tmp T op out_strides m i;
         g \<leftarrow> load (grad_inp m) (unat i);
         Some (m\<lparr>grad_inp := (grad_inp m)[unat i := sc_add T g cv]\<rparr>) })"
  by (simp add: max_pool2d_backward_def not_less)

lemma min_pool2d_backward_step:
  "min_pool2d_backward T op inp_strides out_strides i m =
      (if \<not> ucast i < batch op * chan op * h_in op * w_in op then Some m
       else do {
         cv \<leftarrow> min_pool2d_backward_tmp T op out_strides m i;
         g \<leftarrow> load (grad_inp m) (unat i);
         Some (m\<lparr>grad_inp := (grad_inp m)[unat i := sc_add T g cv]\<rparr>) })"
  by (simp add: min_pool2d_backward_def not_less)

lemma avg_pool2d_backward_tmp_frame:
  "avg_pool2d_backward_tmp T op out_strides (m\<lparr>grad_inp := g\<rparr>) i
     = avg_pool2d_backward_tmp T op out_strides m i"
  by (simp add: avg_pool2d_backward_tmp_def)

lemma max_pool2d_backward_tmp_frame:
  "max_pool2d_backward_tmp T op out_strides (m\<lparr>grad_inp := g\<rparr>) i
     = max_pool2d_backward_tmp T op out_strides m i"
  by (simp add: max_pool2d_backward_tmp_def)

lemma min_pool2d_backward_tmp_frame:
  "min_pool2d_backward_tmp T op out_strides (m\<lparr>grad_inp := g\<rparr>) i
     = min_pool2d_backward_tmp T op out_strides m i"
  by (simp add: min_pool2d_backward_tmp_def)

subsection \<open>Max and min pooling route the gradient to every equal value\<close>

text \<open>
  C4. For an input position of max-pool or min-pool backward (thread \<open>i\<close>, in range),
  the amount added to its gradient is the sum, accumulated in loop order from 0.0, of
  \<open>grad_out[k]\<close> over exactly those visited output offsets \<open>k\<close> at which the stored
  forward value \<open>out[k]\<close> compares equal to this input's value \<open>inp[i]\<close>. Each such
  offset contributes its full \<open>grad_out\<close> value: the summands do not depend on any other
  input value, so a value shared by several positions of a window is not divided among
  them. The statement holds for every scalar arithmetic and comparison.
\<close>

theorem max_min_pool2d_backward_equal_values:
  assumes range: "ucast i < batch op * chan op * h_in op * w_in op"
    and split: "split_index i (w_in op) (h_in op) (chan op) (batch op) = Some (x, y, c, b)"
  shows "(max_pool2d_backward T op inp_strides out_strides i m = Some m' \<longrightarrow>
            m' = m\<lparr>grad_inp := (grad_inp m)[unat i := sc_add T (grad_inp m ! unat i)
              (foldl (sc_add T) (sc_zero T)
                 (map (\<lambda>k. grad_out m ! k)
                    (filter (\<lambda>k. sc_eq T (out m ! k) (inp m ! unat i))
                       (backward_offsets op out_strides b c y x))))]\<rparr>)
       \<and> (min_pool2d_backward T op inp_strides out_strides i m = Some m'' \<longrightarrow>
            m'' = m\<lparr>grad_inp := (grad_inp m)[unat i := sc_add T (grad_inp m ! unat i)
              (foldl (sc_add T) (sc_zero T)
                 (map (\<lambda>k. grad_out m ! k)
                    (filter (\<lambda>k. sc_eq T (out m ! k) (inp m ! unat i))
                       (backward_offsets op out_strides b c y x))))]\<rparr>)"
proof (intro conjI impI)
  assume "max_pool2d_backward T op inp_strides out_strides i m = Some m'"
  with range obtain tmp where t: "max_pool2d_backward_tmp T op out_strides m i = Some tmp"
    and m': "m' = m\<lparr>grad_inp := (grad_inp m)[unat i := sc_add T (grad_inp m ! unat i) tmp]\<rparr>"
    by (auto simp: max_pool2d_backward_step load_def split: bind_splits if_splits)
  show "m' = m\<lparr>grad_inp := (grad_inp m)[unat i := sc_add T (grad_inp m ! unat i)
              (foldl (sc_add T) (sc_zero T)
                 (map (\<lambda>k. grad_out m ! k)
                    (filter (\<lambda>k. sc_eq T (out m ! k) (inp m ! unat i))
                       (backward_offsets op out_strides b c y x))))]\<rparr>"
    unfolding m' max_pool2d_backward_tmp_Some [OF t split] ..
next
  assume "min_pool2d_backward T op inp_strides out_strides i m = Some m''"
  with range obtain tmp where t: "max_pool2d_backward_tmp T op out_strides m i = Some tmp"
    and m'': "m'' = m\<lparr>grad_inp := (grad_inp m)[unat i := sc_add T (grad_inp m ! unat i) tmp]\<rparr>"
    by (auto simp: min_pool2d_backward_step min_pool2d_backward_tmp_eq_max load_def
        split: bind_splits if_splits)
  show "m'' = m\<lparr>grad_inp := (grad_inp m)[unat i := sc_add T (grad_inp m ! unat i)
              (foldl (sc_add T) (sc_zero T)
                 (map (\<lambda>k. grad_out m ! k)
                    (filter (\<lambda>k. sc_eq T (out m ! k) (inp m ! unat i))
                       (backward_offsets op out_strides b c y x))))]\<rparr>"
    unfolding m'' max_pool2d_backward_tmp_Some [OF t split] ..
qed

text \<open>
  The theorem on the single-window descriptor, whose input holds the maximum 5 at
  positions 0 and 1: \<open>out\<close> is the forward result, and threads 0 and 1 each add the
  whole output gradient 3 to their entry.
\<close>

theorem max_min_pool2d_backward_equal_values_witness:
  "ucast (0 :: uint) < batch op_single_window * chan op_single_window
       * h_in op_single_window * w_in op_single_window
   \<and> split_index 0 (w_in op_single_window) (h_in op_single_window) (chan op_single_window)
        (batch op_single_window) = Some (0, 0, 0, 0)
   \<and> split_index 1 (w_in op_single_window) (h_in op_single_window) (chan op_single_window)
        (batch op_single_window) = Some (1, 0, 0, 0)
   \<and> max_pool2d_forward exact op_single_window strides_2x2 strides_1x1 (inp tie_bufs) [Fin 0] 0
        = Some (out tie_bufs)
   \<and> max_pool2d_backward exact op_single_window strides_2x2 strides_1x1 0 tie_bufs
        = Some (tie_bufs\<lparr>grad_inp := [Fin 13, Fin 20, Fin 30, Fin 40]\<rparr>)
   \<and> max_pool2d_backward exact op_single_window strides_2x2 strides_1x1 1 tie_bufs
        = Some (tie_bufs\<lparr>grad_inp := [Fin 10, Fin 23, Fin 30, Fin 40]\<rparr>)
   \<and> min_pool2d_backward exact op_single_window strides_2x2 strides_1x1 1 tie_bufs
        = Some (tie_bufs\<lparr>grad_inp := [Fin 10, Fin 23, Fin 30, Fin 40]\<rparr>)
   \<and> launch [0, 1, 2, 3] (max_pool2d_backward exact op_single_window strides_2x2 strides_1x1)
        tie_bufs = Some (tie_bufs\<lparr>grad_inp := [Fin 13, Fin 23, Fin 30, Fin 40]\<rparr>)
   \<and> backward_offsets op_single_window strides_1x1 0 0 0 0 = [0]
   \<and> backward_offsets op_single_window strides_1x1 0 0 0 1 = [0]
   \<and> tie_bufs\<lparr>grad_inp := [Fin 13, Fin 20, Fin 30, Fin 40]\<rparr>
        = tie_bufs\<lparr>grad_inp := (grad_inp tie_bufs)[unat (0 :: uint) :=
            ieee_add (grad_inp tie_bufs ! unat (0 :: uint)) (ieee_add (Fin 0) (grad_out tie_bufs ! 0))]\<rparr>
   \<and> tie_bufs\<lparr>grad_inp := [Fin 10, Fin 23, Fin 30, Fin 40]\<rparr>
        = tie_bufs\<lparr>grad_inp := (grad_inp tie_bufs)[unat (1 :: uint) :=
            ieee_add (grad_inp tie_bufs ! unat (1 :: uint)) (ieee_add (Fin 0) (grad_out tie_bufs ! 0))]\<rparr>"
proof -
  have r0: "ucast (0 :: uint) < batch op_single_window * chan op_single_window
       * h_in op_single_window * w_in op_single_window"
    and r1: "ucast (1 :: uint) < batch op_single_window * chan op_single_window
       * h_in op_single_window * w_in op_single_window"
    by (simp_all add: op_single_window_def)
  have s0: "split_index 0 (w_in op_single_window) (h_in op_single_window) (chan op_single_window)
        (batch op_single_window) = Some (0, 0, 0, 0)"
    and s1: "split_index 1 (w_in op_single_window) (h_in op_single_window) (chan op_single_window)
        (batch op_single_window) = Some (1, 0, 0, 0)"
    by code_simp+
  have f: "max_pool2d_forward exact op_single_window strides_2x2 strides_1x1 (inp tie_bufs) [Fin 0] 0
        = Some (out tie_bufs)"
    by code_simp
  have b0: "max_pool2d_backward exact op_single_window strides_2x2 strides_1x1 0 tie_bufs
        = Some (tie_bufs\<lparr>grad_inp := [Fin 13, Fin 20, Fin 30, Fin 40]\<rparr>)"
    and b1: "max_pool2d_backward exact op_single_window strides_2x2 strides_1x1 1 tie_bufs
        = Some (tie_bufs\<lparr>grad_inp := [Fin 10, Fin 23, Fin 30, Fin 40]\<rparr>)"
    and n1: "min_pool2d_backward exact op_single_window strides_2x2 strides_1x1 1 tie_bufs
        = Some (tie_bufs\<lparr>grad_inp := [Fin 10, Fin 23, Fin 30, Fin 40]\<rparr>)"
    and l: "launch [0, 1, 2, 3] (max_pool2d_backward exact op_single_window strides_2x2 strides_1x1)
        tie_bufs = Some (tie_bufs\<lparr>grad_inp := [Fin 13, Fin 23, Fin 30, Fin 40]\<rparr>)"
    by code_simp+
  have o0: "backward_offsets op_single_window strides_1x1 0 0 0 0 = [0]"
    and o1: "backward_offsets op_single_window strides_1x1 0 0 0 1 = [0]"
    by code_simp+
  have e: "sc_eq exact (out tie_bufs ! 0) (inp tie_bufs ! unat (0 :: uint))"
    "sc_eq exact (out tie_bufs ! 0) (inp tie_bufs ! unat (1 :: uint))"
    by (simp_all add: exact_def tie_bufs_def)
  have ops: "sc_add exact = ieee_add" "sc_zero exact = Fin 0"
    by (simp_all add: exact_def)
  note t0 = max_min_pool2d_backward_equal_values [OF r0 s0, where T = exact
      and inp_strides = strides_2x2 and out_strides = strides_1x1 and m = tie_bufs
      and m' = "tie_bufs\<lparr>grad_inp := [Fin 13, Fin 20, Fin 30, Fin 40]\<rparr>"]
  note t1 = max_min_pool2d_backward_equal_values [OF r1 s1, where T = exact
      and inp_strides = strides_2x2 and out_strides = strides_1x1 and m = tie_bufs
      and m' = "tie_bufs\<lparr>grad_inp := [Fin 10, Fin 23, Fin 30, Fin 40]\<rparr>"]
  have c0: "tie_bufs\<lparr>grad_inp := [Fin 13, Fin 20, Fin 30, Fin 40]\<rparr>
        = tie_bufs\<lparr>grad_inp := (grad_inp tie_bufs)[unat (0 :: uint) :=
            ieee_add (grad_inp tie_bufs ! unat (0 :: uint)) (ieee_add (Fin 0) (grad_out tie_bufs ! 0))]\<rparr>"
    using t0 b0 e(1) by (simp add: o0 ops)
  have c1: "tie_bufs\<lparr>grad_inp := [Fin 10, Fin 23, Fin 30, Fin 40]\<rparr>
        = tie_bufs\<lparr>grad_inp := (grad_inp tie_bufs)[unat (1 :: uint) :=
            ieee_add (grad_inp tie_bufs ! unat (1 :: uint)) (ieee_add (Fin 0) (grad_out tie_bufs ! 0))]\<rparr>"
    using t1 b1 e(2) by (simp add: o1 ops)
  show ?thesis
    using r0 s0 s1 f b0 b1 n1 l o0 o1 c0 c1 by blast
qed

subsection \<open>Pooling backward accumulates, one entry per thread\<close>

text \<open>
  C6. A pooling backward kernel (avg, max or min), launched over any list of distinct
  thread indices, only adds to the gradient buffer: \<open>inp\<close>, \<open>out\<close> and \<open>grad_out\<close> are
  unchanged, the length of \<open>grad_inp\<close> is unchanged, the entry of every launched thread
  in range is its value before the launch plus that thread's window contribution (the
  value of \<open>tmp\<close> after its loop, divided by \<open>kernel * kernel\<close> for avg), computed from the
  buffers as they were before the launch, and every other entry keeps its value. The
  statement holds for every scalar arithmetic.
\<close>

theorem pool2d_backward_adds_to_grad_inp:
  assumes kernel: "body = avg_pool2d_backward T op inp_strides out_strides
        \<and> contribution = (\<lambda>i. map_option (\<lambda>tmp. sc_div T tmp (sc_cast T (kernel op * kernel op)))
                                 (avg_pool2d_backward_tmp T op out_strides m i))
      \<or> body = max_pool2d_backward T op inp_strides out_strides
        \<and> contribution = max_pool2d_backward_tmp T op out_strides m
      \<or> body = min_pool2d_backward T op inp_strides out_strides
        \<and> contribution = min_pool2d_backward_tmp T op out_strides m"
    and threads: "distinct threads"
    and run: "launch threads body m = Some m'"
  shows "inp m' = inp m \<and> out m' = out m \<and> grad_out m' = grad_out m
     \<and> length (grad_inp m') = length (grad_inp m)
     \<and> (\<forall>i \<in> set threads. ucast i < batch op * chan op * h_in op * w_in op \<longrightarrow>
           (\<exists>cv. contribution i = Some cv
              \<and> grad_inp m' ! unat i = sc_add T (grad_inp m ! unat i) cv))
     \<and> (\<forall>j. (\<forall>i \<in> set threads. ucast i < batch op * chan op * h_in op * w_in op \<longrightarrow> unat i \<noteq> j)
           \<longrightarrow> grad_inp m' ! j = grad_inp m ! j)"
proof -
  have "\<exists>g. m' = m\<lparr>grad_inp := g\<rparr> \<and> length g = length (grad_inp m)
     \<and> (\<forall>i \<in> set threads. ucast i < batch op * chan op * h_in op * w_in op \<longrightarrow>
           (\<exists>cv. contribution i = Some cv \<and> unat i < length g
              \<and> g ! unat i = sc_add T (grad_inp m ! unat i) cv))
     \<and> (\<forall>j. (\<forall>i \<in> set threads. ucast i < batch op * chan op * h_in op * w_in op \<longrightarrow> unat i \<noteq> j)
           \<longrightarrow> g ! j = grad_inp m ! j)"
    using kernel
  proof (elim disjE conjE)
    assume b: "body = avg_pool2d_backward T op inp_strides out_strides"
      and c: "contribution = (\<lambda>i. map_option (\<lambda>tmp. sc_div T tmp (sc_cast T (kernel op * kernel op)))
                                 (avg_pool2d_backward_tmp T op out_strides m i))"
    show ?thesis
      unfolding c
      by (rule launch_accumulates [OF _ _ threads run [unfolded b],
            where contrib = "\<lambda>m i. map_option (\<lambda>tmp. sc_div T tmp (sc_cast T (kernel op * kernel op)))
                                 (avg_pool2d_backward_tmp T op out_strides m i)"])
        (simp_all add: avg_pool2d_backward_step avg_pool2d_backward_tmp_frame)
  next
    assume b: "body = max_pool2d_backward T op inp_strides out_strides"
      and c: "contribution = max_pool2d_backward_tmp T op out_strides m"
    show ?thesis
      unfolding c
      by (rule launch_accumulates [OF _ _ threads run [unfolded b],
            where contrib = "max_pool2d_backward_tmp T op out_strides"])
        (simp_all add: max_pool2d_backward_step max_pool2d_backward_tmp_frame)
  next
    assume b: "body = min_pool2d_backward T op inp_strides out_strides"
      and c: "contribution = min_pool2d_backward_tmp T op out_strides m"
    show ?thesis
      unfolding c
      by (rule launch_accumulates [OF _ _ threads run [unfolded b],
            where contrib = "min_pool2d_backward_tmp T op out_strides"])
        (simp_all add: min_pool2d_backward_step min_pool2d_backward_tmp_frame)
  qed
  then obtain g where "m' = m\<lparr>grad_inp := g\<rparr>" "length g = length (grad_inp m)"
    "\<forall>i \<in> set threads. ucast i < batch op * chan op * h_in op * w_in op \<longrightarrow>
           (\<exists>cv. contribution i = Some cv \<and> unat i < length g
              \<and> g ! unat i = sc_add T (grad_inp m ! unat i) cv)"
    "\<forall>j. (\<forall>i \<in> set threads. ucast i < batch op * chan op * h_in op * w_in op \<longrightarrow> unat i \<noteq> j)
           \<longrightarrow> g ! j = grad_inp m ! j"
    by blast
  then show ?thesis by (simp (no_asm_simp)) blast
qed

text \<open>
  The theorem for avg-pool backward on the single-window descriptor, launched for threads
  1 and 0 over a gradient buffer that holds 10, 20, 30, 40: entries 0 and 1 gain 3/4,
  entries 2 and 3 are untouched.
\<close>

theorem pool2d_backward_adds_to_grad_inp_witness:
  "distinct [1, 0 :: uint]
   \<and> launch [1, 0] (avg_pool2d_backward exact op_single_window strides_2x2 strides_1x1) tie_bufs
        = Some (tie_bufs\<lparr>grad_inp := [Fin (43 / 4), Fin (83 / 4), Fin 30, Fin 40]\<rparr>)
   \<and> avg_pool2d_backward_tmp exact op_single_window strides_1x1 tie_bufs 1 = Some (Fin 3)
   \<and> ucast (1 :: uint) < batch op_single_window * chan op_single_window
        * h_in op_single_window * w_in op_single_window
   \<and> inp (tie_bufs\<lparr>grad_inp := [Fin (43 / 4), Fin (83 / 4), Fin 30, Fin 40]\<rparr>) = inp tie_bufs
   \<and> out (tie_bufs\<lparr>grad_inp := [Fin (43 / 4), Fin (83 / 4), Fin 30, Fin 40]\<rparr>) = out tie_bufs
   \<and> grad_out (tie_bufs\<lparr>grad_inp := [Fin (43 / 4), Fin (83 / 4), Fin 30, Fin 40]\<rparr>)
        = grad_out tie_bufs
   \<and> (\<exists>cv. map_option (\<lambda>tmp. sc_div exact tmp
                  (sc_cast exact (kernel op_single_window * kernel op_single_window)))
             (avg_pool2d_backward_tmp exact op_single_window strides_1x1 tie_bufs 1) = Some cv
          \<and> grad_inp (tie_bufs\<lparr>grad_inp := [Fin (43 / 4), Fin (83 / 4), Fin 30, Fin 40]\<rparr>)
               ! unat (1 :: uint)
             = sc_add exact (grad_inp tie_bufs ! unat (1 :: uint)) cv)
   \<and> grad_inp (tie_bufs\<lparr>grad_inp := [Fin (43 / 4), Fin (83 / 4), Fin 30, Fin 40]\<rparr>) ! 2
        = grad_inp tie_bufs ! 2"
proof -
  have d: "distinct [1, 0 :: uint]"
    by simp
  have l: "launch [1, 0] (avg_pool2d_backward exact op_single_window strides_2x2 strides_1x1)
        tie_bufs = Some (tie_bufs\<lparr>grad_inp := [Fin (43 / 4), Fin (83 / 4), Fin 30, Fin 40]\<rparr>)"
    and t: "avg_pool2d_backward_tmp exact op_single_window strides_1x1 tie_bufs 1 = Some (Fin 3)"
    by code_simp+
  have r: "ucast (1 :: uint) < batch op_single_window * chan op_single_window
        * h_in op_single_window * w_in op_single_window"
    by (simp add: op_single_window_def)
  have k: "avg_pool2d_backward exact op_single_window strides_2x2 strides_1x1
        = avg_pool2d_backward exact op_single_window strides_2x2 strides_1x1
        \<and> (\<lambda>i. map_option (\<lambda>tmp. sc_div exact tmp
                  (sc_cast exact (kernel op_single_window * kernel op_single_window)))
             (avg_pool2d_backward_tmp exact op_single_window strides_1x1 tie_bufs i))
          = (\<lambda>i. map_option (\<lambda>tmp. sc_div exact tmp
                  (sc_cast exact (kernel op_single_window * kernel op_single_window)))
             (avg_pool2d_backward_tmp exact op_single_window strides_1x1 tie_bufs i))
      \<or> avg_pool2d_backward exact op_single_window strides_2x2 strides_1x1
        = max_pool2d_backward exact op_single_window strides_2x2 strides_1x1
        \<and> (\<lambda>i. map_option (\<lambda>tmp. sc_div exact tmp
                  (sc_cast exact (kernel op_single_window * kernel op_single_window)))
             (avg_pool2d_backward_tmp exact op_single_window strides_1x1 tie_bufs i))
          = max_pool2d_backward_tmp exact op_single_window strides_1x1 tie_bufs
      \<or> avg_pool2d_backward exact op_single_window strides_2x2 strides_1x1
        = min_pool2d_backward exact op_single_window strides_2x2 strides_1x1
        \<and> (\<lambda>i. map_option (\<lambda>tmp. sc_div exact tmp
                  (sc_cast exact (kernel op_single_window * kernel op_single_window)))
             (avg_pool2d_backward_tmp exact op_single_window strides_1x1 tie_bufs i))
          = min_pool2d_backward_tmp exact op_single_window strides_1x1 tie_bufs"
    by simp
  note c = pool2d_backward_adds_to_grad_inp [OF k d l]
  have i1: "(1 :: uint) \<in> set [1, 0]"
    by simp
  have n2: "\<forall>i \<in> set [1, 0 :: uint]. ucast i < batch op_single_window * chan op_single_window
        * h_in op_single_window * w_in op_single_window \<longrightarrow> unat i \<noteq> 2"
    by simp
  from c i1 r have e: "\<exists>cv. map_option (\<lambda>tmp. sc_div exact tmp
                  (sc_cast exact (kernel op_single_window * kernel op_single_window)))
             (avg_pool2d_backward_tmp exact op_single_window strides_1x1 tie_bufs 1) = Some cv
          \<and> grad_inp (tie_bufs\<lparr>grad_inp := [Fin (43 / 4), Fin (83 / 4), Fin 30, Fin 40]\<rparr>)
               ! unat (1 :: uint)
             = sc_add exact (grad_inp tie_bufs ! unat (1 :: uint)) cv"
    by blast
  from c n2 have u: "grad_inp (tie_bufs\<lparr>grad_inp := [Fin (43 / 4), Fin (83 / 4), Fin 30, Fin 40]\<rparr>) ! 2
        = grad_inp tie_bufs ! 2"
    by blast
  from c d l t r e u show ?thesis by blast
qed

lemma pool2d_backward_accumulating:
  assumes kernel: "body = avg_pool2d_backward T op inp_strides out_strides
      \<or> body = max_pool2d_backward T op inp_strides out_strides
      \<or> body = min_pool2d_backward T op inp_strides out_strides"
  shows "\<exists>active contrib. (\<forall>i m. body i m =
      (if \<not> active i then Some m
       else do {
         cv \<leftarrow> contrib m i;
         g \<leftarrow> load (grad_inp m) (unat i);
         Some (m\<lparr>grad_inp := (grad_inp m)[unat i := sc_add T g cv]\<rparr>) }))
      \<and> (\<forall>m g i. contrib (m\<lparr>grad_inp := g\<rparr>) i = contrib m i)"
  using kernel
proof (elim disjE)
  assume "body = avg_pool2d_backward T op inp_strides out_strides"
  then show ?thesis
    by (intro exI [of _ "\<lambda>i. ucast i < batch op * chan op * h_in op * w_in op"]
          exI [of _ "\<lambda>m i. map_option (\<lambda>tmp. sc_div T tmp (sc_cast T (kernel op * kernel op)))
                               (avg_pool2d_backward_tmp T op out_strides m i)"])
      (simp add: avg_pool2d_backward_step avg_pool2d_backward_tmp_frame)
next
  assume "body = max_pool2d_backward T op inp_strides out_strides"
  then show ?thesis
    by (intro exI [of _ "\<lambda>i. ucast i < batch op * chan op * h_in op * w_in op"]
          exI [of _ "max_pool2d_backward_tmp T op out_strides"])
      (simp add: max_pool2d_backward_step max_pool2d_backward_tmp_frame)
next
  assume "body = min_pool2d_backward T op inp_strides out_strides"
  then show ?thesis
    by (intro exI [of _ "\<lambda>i. ucast i < batch op * chan op * h_in op * w_in op"]
          exI [of _ "min_pool2d_backward_tmp T op out_strides"])
      (simp add: min_pool2d_backward_step min_pool2d_backward_tmp_frame)
qed

text \<open>
  C8. A pooling backward thread writes only the gradient entry at its own flat index:
  its result is the state before with \<open>grad_inp[i]\<close> replaced. Distinct thread indices
  are distinct entries, so the writes of two threads never overlap, and running two
  distinct threads in either order gives the same result (undefined behaviour included):
  a plain read-modify-write needs no atomic.
\<close>

theorem pool2d_backward_writes_disjoint:
  assumes kernel: "body = avg_pool2d_backward T op inp_strides out_strides
      \<or> body = max_pool2d_backward T op inp_strides out_strides
      \<or> body = min_pool2d_backward T op inp_strides out_strides"
  shows "(body i m = Some m' \<longrightarrow> (\<exists>v. m' = m\<lparr>grad_inp := (grad_inp m)[unat i := v]\<rparr>))
     \<and> (i \<noteq> j \<longrightarrow> unat i \<noteq> unat j \<and> body i m \<bind> body j = body j m \<bind> body i)"
proof -
  from pool2d_backward_accumulating [OF kernel] obtain active contrib where
    a: "\<forall>i m. body i m =
      (if \<not> active i then Some m
       else do {
         cv \<leftarrow> contrib m i;
         g \<leftarrow> load (grad_inp m) (unat i);
         Some (m\<lparr>grad_inp := (grad_inp m)[unat i := sc_add T g cv]\<rparr>) })"
    and b: "\<forall>m g i. contrib (m\<lparr>grad_inp := g\<rparr>) i = contrib m i"
    by (elim exE conjE)
  note s = a [rule_format] and f = b [rule_format]
  have "body i m = Some m' \<longrightarrow> (\<exists>v. m' = m\<lparr>grad_inp := (grad_inp m)[unat i := v]\<rparr>)"
    using accumulating_thread_writes_own_entry [of body active contrib "sc_add T"] s by blast
  moreover have "i \<noteq> j \<longrightarrow> unat i \<noteq> unat j"
    by (simp add: word_unat_eq_iff)
  moreover have "i \<noteq> j \<longrightarrow> body i m \<bind> body j = body j m \<bind> body i"
    using accumulating_threads_commute [of body active contrib "sc_add T"] s f by blast
  ultimately show ?thesis by blast
qed

text \<open>
  The theorem for max-pool backward and threads 0 and 1 of the single-window descriptor.
\<close>

theorem pool2d_backward_writes_disjoint_witness:
  "max_pool2d_backward exact op_single_window strides_2x2 strides_1x1 0 tie_bufs
      = Some (tie_bufs\<lparr>grad_inp := (grad_inp tie_bufs)[unat (0 :: uint) := Fin 13]\<rparr>)
   \<and> (0 :: uint) \<noteq> 1 \<and> unat (0 :: uint) \<noteq> unat (1 :: uint)
   \<and> max_pool2d_backward exact op_single_window strides_2x2 strides_1x1 0 tie_bufs
        \<bind> max_pool2d_backward exact op_single_window strides_2x2 strides_1x1 1
      = Some (tie_bufs\<lparr>grad_inp := [Fin 13, Fin 23, Fin 30, Fin 40]\<rparr>)
   \<and> max_pool2d_backward exact op_single_window strides_2x2 strides_1x1 1 tie_bufs
        \<bind> max_pool2d_backward exact op_single_window strides_2x2 strides_1x1 0
      = Some (tie_bufs\<lparr>grad_inp := [Fin 13, Fin 23, Fin 30, Fin 40]\<rparr>)"
proof -
  have b0: "max_pool2d_backward exact op_single_window strides_2x2 strides_1x1 0 tie_bufs
      = Some (tie_bufs\<lparr>grad_inp := (grad_inp tie_bufs)[unat (0 :: uint) := Fin 13]\<rparr>)"
    by code_simp
  have b01: "max_pool2d_backward exact op_single_window strides_2x2 strides_1x1 0 tie_bufs
        \<bind> max_pool2d_backward exact op_single_window strides_2x2 strides_1x1 1
      = Some (tie_bufs\<lparr>grad_inp := [Fin 13, Fin 23, Fin 30, Fin 40]\<rparr>)"
    by code_simp
  have n: "(0 :: uint) \<noteq> 1"
    by simp
  have k: "max_pool2d_backward exact op_single_window strides_2x2 strides_1x1
        = avg_pool2d_backward exact op_single_window strides_2x2 strides_1x1
      \<or> max_pool2d_backward exact op_single_window strides_2x2 strides_1x1
        = max_pool2d_backward exact op_single_window strides_2x2 strides_1x1
      \<or> max_pool2d_backward exact op_single_window strides_2x2 strides_1x1
        = min_pool2d_backward exact op_single_window strides_2x2 strides_1x1"
    by simp
  note c = pool2d_backward_writes_disjoint [OF k, of 0 tie_bufs _ 1]
  from c n have u: "unat (0 :: uint) \<noteq> unat (1 :: uint)"
    and s: "max_pool2d_backward exact op_single_window strides_2x2 strides_1x1 0 tie_bufs
        \<bind> max_pool2d_backward exact op_single_window strides_2x2 strides_1x1 1
      = max_pool2d_backward exact op_single_window strides_2x2 strides_1x1 1 tie_bufs
        \<bind> max_pool2d_backward exact op_single_window strides_2x2 strides_1x1 0"
    by blast+
  from b0 n u b01 s show ?thesis by simp
qed

lemma list_update_self: "\<exists>v. xs = xs[k := v]"
  by (rule exI [of _ "xs ! k"]) simp

lemma avg_pool2d_forward_raw_index:
  assumes "avg_pool2d_forward T op inp_strides out_strides inp_buf out_buf i = Some out_buf'"
  shows "\<exists>v. out_buf' = out_buf[unat i := v]"
  using assms list_update_self [of out_buf "unat i"]
  by (auto simp: avg_pool2d_forward_def store_def Let_def split: bind_splits if_splits)

lemma max_pool2d_forward_raw_index:
  assumes "max_pool2d_forward T op inp_strides out_strides inp_buf out_buf i = Some out_buf'"
  shows "\<exists>v. out_buf' = out_buf[unat i := v]"
  using assms list_update_self [of out_buf "unat i"]
  by (auto simp: max_pool2d_forward_def store_def Let_def split: bind_splits if_splits)

lemma min_pool2d_forward_raw_index:
  assumes "min_pool2d_forward T op inp_strides out_strides inp_buf out_buf i = Some out_buf'"
  shows "\<exists>v. out_buf' = out_buf[unat i := v]"
  using assms list_update_self [of out_buf "unat i"]
  by (auto simp: min_pool2d_forward_def store_def Let_def split: bind_splits if_splits)

lemma max_pool2d_backward_reads_inp_at_i:
  assumes "load inp_buf' (unat i) = load (inp m) (unat i)"
  shows "max_pool2d_backward T op inp_strides out_strides i (m\<lparr>inp := inp_buf'\<rparr>)
      = map_option (\<lambda>m'. m'\<lparr>inp := inp_buf'\<rparr>) (max_pool2d_backward T op inp_strides out_strides i m)"
proof -
  have t: "max_pool2d_backward_tmp T op out_strides (m\<lparr>inp := inp_buf'\<rparr>) i
      = max_pool2d_backward_tmp T op out_strides m i"
    using assms by (simp add: max_pool2d_backward_tmp_def)
  show ?thesis
    by (cases "max_pool2d_backward_tmp T op out_strides m i"; cases "load (grad_inp m) (unat i)")
      (simp_all add: max_pool2d_backward_step t)
qed

lemma min_pool2d_backward_reads_inp_at_i:
  assumes "load inp_buf' (unat i) = load (inp m) (unat i)"
  shows "min_pool2d_backward T op inp_strides out_strides i (m\<lparr>inp := inp_buf'\<rparr>)
      = map_option (\<lambda>m'. m'\<lparr>inp := inp_buf'\<rparr>) (min_pool2d_backward T op inp_strides out_strides i m)"
proof -
  have t: "min_pool2d_backward_tmp T op out_strides (m\<lparr>inp := inp_buf'\<rparr>) i
      = min_pool2d_backward_tmp T op out_strides m i"
    using assms by (simp add: min_pool2d_backward_tmp_def)
  show ?thesis
    by (cases "min_pool2d_backward_tmp T op out_strides m i"; cases "load (grad_inp m) (unat i)")
      (simp_all add: min_pool2d_backward_step t)
qed

text \<open>
  C9. No pooling forward kernel reads \<open>out_strides\<close> and no pooling backward kernel
  reads \<open>inp_strides\<close>: two invocations that differ only there give the same result. A
  forward thread writes \<open>out\<close> at the raw thread index \<open>i\<close> only, a backward thread
  writes \<open>grad_inp\<close> at the raw index \<open>i\<close> only, and max-pool and min-pool backward read
  \<open>inp\<close> at the raw index \<open>i\<close> only: replacing \<open>inp\<close> by a buffer that agrees at \<open>i\<close>
  changes nothing else.
\<close>

theorem pool2d_strides_unread:
  "avg_pool2d_forward T op inp_strides out_strides inp_buf out_buf i
     = avg_pool2d_forward T op inp_strides out_strides' inp_buf out_buf i
   \<and> max_pool2d_forward T op inp_strides out_strides inp_buf out_buf i
     = max_pool2d_forward T op inp_strides out_strides' inp_buf out_buf i
   \<and> min_pool2d_forward T op inp_strides out_strides inp_buf out_buf i
     = min_pool2d_forward T op inp_strides out_strides' inp_buf out_buf i
   \<and> avg_pool2d_backward T op inp_strides out_strides i m
     = avg_pool2d_backward T op inp_strides' out_strides i m
   \<and> max_pool2d_backward T op inp_strides out_strides i m
     = max_pool2d_backward T op inp_strides' out_strides i m
   \<and> min_pool2d_backward T op inp_strides out_strides i m
     = min_pool2d_backward T op inp_strides' out_strides i m
   \<and> (\<forall>out_buf'. avg_pool2d_forward T op inp_strides out_strides inp_buf out_buf i = Some out_buf'
          \<or> max_pool2d_forward T op inp_strides out_strides inp_buf out_buf i = Some out_buf'
          \<or> min_pool2d_forward T op inp_strides out_strides inp_buf out_buf i = Some out_buf'
        \<longrightarrow> (\<exists>v. out_buf' = out_buf[unat i := v]))
   \<and> (\<forall>m'. avg_pool2d_backward T op inp_strides out_strides i m = Some m'
          \<or> max_pool2d_backward T op inp_strides out_strides i m = Some m'
          \<or> min_pool2d_backward T op inp_strides out_strides i m = Some m'
        \<longrightarrow> (\<exists>v. m' = m\<lparr>grad_inp := (grad_inp m)[unat i := v]\<rparr>))
   \<and> (load inp_buf' (unat i) = load (inp m) (unat i) \<longrightarrow>
        max_pool2d_backward T op inp_strides out_strides i (m\<lparr>inp := inp_buf'\<rparr>)
          = map_option (\<lambda>m'. m'\<lparr>inp := inp_buf'\<rparr>) (max_pool2d_backward T op inp_strides out_strides i m)
        \<and> min_pool2d_backward T op inp_strides out_strides i (m\<lparr>inp := inp_buf'\<rparr>)
          = map_option (\<lambda>m'. m'\<lparr>inp := inp_buf'\<rparr>) (min_pool2d_backward T op inp_strides out_strides i m))"
proof -
  have strides: "avg_pool2d_forward T op inp_strides out_strides inp_buf out_buf i
     = avg_pool2d_forward T op inp_strides out_strides' inp_buf out_buf i
   \<and> max_pool2d_forward T op inp_strides out_strides inp_buf out_buf i
     = max_pool2d_forward T op inp_strides out_strides' inp_buf out_buf i
   \<and> min_pool2d_forward T op inp_strides out_strides inp_buf out_buf i
     = min_pool2d_forward T op inp_strides out_strides' inp_buf out_buf i
   \<and> avg_pool2d_backward T op inp_strides out_strides i m
     = avg_pool2d_backward T op inp_strides' out_strides i m
   \<and> max_pool2d_backward T op inp_strides out_strides i m
     = max_pool2d_backward T op inp_strides' out_strides i m
   \<and> min_pool2d_backward T op inp_strides out_strides i m
     = min_pool2d_backward T op inp_strides' out_strides i m"
    by (simp add: avg_pool2d_forward_def max_pool2d_forward_def min_pool2d_forward_def
        avg_pool2d_backward_def max_pool2d_backward_def min_pool2d_backward_def)
  have fwd: "\<forall>out_buf'. avg_pool2d_forward T op inp_strides out_strides inp_buf out_buf i = Some out_buf'
          \<or> max_pool2d_forward T op inp_strides out_strides inp_buf out_buf i = Some out_buf'
          \<or> min_pool2d_forward T op inp_strides out_strides inp_buf out_buf i = Some out_buf'
        \<longrightarrow> (\<exists>v. out_buf' = out_buf[unat i := v])"
  proof (intro allI impI)
    fix out_buf'
    assume "avg_pool2d_forward T op inp_strides out_strides inp_buf out_buf i = Some out_buf'
          \<or> max_pool2d_forward T op inp_strides out_strides inp_buf out_buf i = Some out_buf'
          \<or> min_pool2d_forward T op inp_strides out_strides inp_buf out_buf i = Some out_buf'"
    then show "\<exists>v. out_buf' = out_buf[unat i := v]"
    proof (elim disjE)
      assume "avg_pool2d_forward T op inp_strides out_strides inp_buf out_buf i = Some out_buf'"
      then show ?thesis by (rule avg_pool2d_forward_raw_index)
    next
      assume "max_pool2d_forward T op inp_strides out_strides inp_buf out_buf i = Some out_buf'"
      then show ?thesis by (rule max_pool2d_forward_raw_index)
    next
      assume "min_pool2d_forward T op inp_strides out_strides inp_buf out_buf i = Some out_buf'"
      then show ?thesis by (rule min_pool2d_forward_raw_index)
    qed
  qed
  have own: "\<exists>v. m' = m\<lparr>grad_inp := (grad_inp m)[unat i := v]\<rparr>"
    if k: "body = avg_pool2d_backward T op inp_strides out_strides
      \<or> body = max_pool2d_backward T op inp_strides out_strides
      \<or> body = min_pool2d_backward T op inp_strides out_strides"
      and r: "body i m = Some m'" for body m'
  proof -
    from pool2d_backward_accumulating [OF k] obtain active contrib where
      a: "\<forall>i m. body i m =
        (if \<not> active i then Some m
         else do {
           cv \<leftarrow> contrib m i;
           g \<leftarrow> load (grad_inp m) (unat i);
           Some (m\<lparr>grad_inp := (grad_inp m)[unat i := sc_add T g cv]\<rparr>) })"
      by (elim exE conjE)
    from a [rule_format] r show ?thesis by (rule accumulating_thread_writes_own_entry)
  qed
  have bwd: "\<forall>m'. avg_pool2d_backward T op inp_strides out_strides i m = Some m'
          \<or> max_pool2d_backward T op inp_strides out_strides i m = Some m'
          \<or> min_pool2d_backward T op inp_strides out_strides i m = Some m'
        \<longrightarrow> (\<exists>v. m' = m\<lparr>grad_inp := (grad_inp m)[unat i := v]\<rparr>)"
    using own by blast
  have reads: "load inp_buf' (unat i) = load (inp m) (unat i) \<longrightarrow>
        max_pool2d_backward T op inp_strides out_strides i (m\<lparr>inp := inp_buf'\<rparr>)
          = map_option (\<lambda>m'. m'\<lparr>inp := inp_buf'\<rparr>) (max_pool2d_backward T op inp_strides out_strides i m)
        \<and> min_pool2d_backward T op inp_strides out_strides i (m\<lparr>inp := inp_buf'\<rparr>)
          = map_option (\<lambda>m'. m'\<lparr>inp := inp_buf'\<rparr>) (min_pool2d_backward T op inp_strides out_strides i m)"
    using max_pool2d_backward_reads_inp_at_i min_pool2d_backward_reads_inp_at_i by blast
  from strides fwd bwd reads show ?thesis by blast
qed

text \<open>
  The theorem for max pooling on the single-window descriptor: other output strides,
  no input strides at all for the backward kernel, and another input buffer that agrees
  at index 0.
\<close>

theorem pool2d_strides_unread_witness:
  "max_pool2d_forward exact op_single_window strides_2x2 strides_1x1 (inp tie_bufs) [Fin 0] 0
      = Some [Fin 5]
   \<and> max_pool2d_forward exact op_single_window strides_2x2 [7, 0, 3] (inp tie_bufs) [Fin 0] 0
      = Some [Fin 5]
   \<and> (\<exists>v. [Fin 5] = [Fin 0][unat (0 :: uint) := v])
   \<and> max_pool2d_backward exact op_single_window strides_2x2 strides_1x1 0 tie_bufs
      = Some (tie_bufs\<lparr>grad_inp := [Fin 13, Fin 20, Fin 30, Fin 40]\<rparr>)
   \<and> max_pool2d_backward exact op_single_window [] strides_1x1 0 tie_bufs
      = Some (tie_bufs\<lparr>grad_inp := [Fin 13, Fin 20, Fin 30, Fin 40]\<rparr>)
   \<and> load [Fin 5, Fin 9, Fin 9, Fin 9] (unat (0 :: uint)) = load (inp tie_bufs) (unat (0 :: uint))
   \<and> max_pool2d_backward exact op_single_window strides_2x2 strides_1x1 0
        (tie_bufs\<lparr>inp := [Fin 5, Fin 9, Fin 9, Fin 9]\<rparr>)
      = Some (tie_bufs\<lparr>grad_inp := [Fin 13, Fin 20, Fin 30, Fin 40],
                       inp := [Fin 5, Fin 9, Fin 9, Fin 9]\<rparr>)"
proof -
  have f: "max_pool2d_forward exact op_single_window strides_2x2 strides_1x1 (inp tie_bufs) [Fin 0] 0
      = Some [Fin 5]"
    and b: "max_pool2d_backward exact op_single_window strides_2x2 strides_1x1 0 tie_bufs
      = Some (tie_bufs\<lparr>grad_inp := [Fin 13, Fin 20, Fin 30, Fin 40]\<rparr>)"
    by code_simp+
  have l: "load [Fin 5, Fin 9, Fin 9, Fin 9] (unat (0 :: uint)) = load (inp tie_bufs) (unat (0 :: uint))"
    by (simp add: load_def tie_bufs_def)
  note t = pool2d_strides_unread [where T = exact and op = op_single_window
      and inp_strides = strides_2x2 and out_strides = strides_1x1 and out_strides' = "[7, 0, 3]"
      and inp_strides' = "[]" and inp_buf = "inp tie_bufs" and out_buf = "[Fin 0]" and i = 0
      and m = tie_bufs and inp_buf' = "[Fin 5, Fin 9, Fin 9, Fin 9]"]
  from t f have f': "max_pool2d_forward exact op_single_window strides_2x2 [7, 0, 3] (inp tie_bufs)
      [Fin 0] 0 = Some [Fin 5]"
    by simp
  from t f have e: "\<exists>v. [Fin 5] = [Fin 0][unat (0 :: uint) := v]"
    by blast
  from t b have b': "max_pool2d_backward exact op_single_window [] strides_1x1 0 tie_bufs
      = Some (tie_bufs\<lparr>grad_inp := [Fin 13, Fin 20, Fin 30, Fin 40]\<rparr>)"
    by simp
  from t l have "max_pool2d_backward exact op_single_window strides_2x2 strides_1x1 0
        (tie_bufs\<lparr>inp := [Fin 5, Fin 9, Fin 9, Fin 9]\<rparr>)
      = map_option (\<lambda>m'. m'\<lparr>inp := [Fin 5, Fin 9, Fin 9, Fin 9]\<rparr>)
          (max_pool2d_backward exact op_single_window strides_2x2 strides_1x1 0 tie_bufs)"
    by blast
  then have r: "max_pool2d_backward exact op_single_window strides_2x2 strides_1x1 0
        (tie_bufs\<lparr>inp := [Fin 5, Fin 9, Fin 9, Fin 9]\<rparr>)
      = Some (tie_bufs\<lparr>grad_inp := [Fin 13, Fin 20, Fin 30, Fin 40],
                       inp := [Fin 5, Fin 9, Fin 9, Fin 9]\<rparr>)"
    by (simp add: b)
  from f f' e b b' l r show ?thesis by blast
qed

subsection \<open>The index resolver computes the reference offset\<close>

text \<open>The loop on the pairs of a dimension and its stride, innermost dimension first.\<close>

lemma resolver_loop_pairs:
  assumes "idx < prod_list (map fst ps)"
  shows "for_each ps
       (\<lambda>(n, s) (idx, strided_i).
          if n = 0 then None else Some (idx div n, strided_i + (idx mod n) * s))
       (idx, acc)
     = Some (idx div prod_list (map fst ps),
             acc + sum_list (map2 (*) (unravel_innermost_first idx (map fst ps)) (map snd ps)))"
  using assms
proof (induction ps arbitrary: idx acc)
  case Nil
  then show ?case by simp
next
  case (Cons p ps)
  obtain n s where p: "p = (n, s)" by (cases p)
  from Cons.prems have lt: "idx < n * prod_list (map fst ps)" by (simp add: p)
  then have n0: "n \<noteq> 0" by (cases "n = 0") simp_all
  from lt have "idx div n < prod_list (map fst ps)"
    by (simp add: less_mult_imp_div_less mult.commute)
  from Cons.IH [OF this] n0 show ?case
    by (simp add: p div_mult2_eq add.assoc)
qed

lemma map_rev_index: "map (\<lambda>d. n - 1 - d) [0..<n] = rev [0..<n]"
  by (rule nth_equalityI) (simp_all add: rev_nth)

lemma zip_as_map_index:
  assumes "length xs = n" "length ys = n"
  shows "zip xs ys = map (\<lambda>k. (xs ! k, ys ! k)) [0..<n]"
  using assms by (intro nth_equalityI) simp_all

lemma get_strided_index_pairs:
  assumes ld: "length dims = num_dims" and ls: "length strides = num_dims"
  shows "get_strided_index idx num_dims dims strides =
     map_option snd
       (for_each (rev (zip dims strides))
          (\<lambda>(n, s) (idx, strided_i).
             if n = 0 then None else Some (idx div n, strided_i + (idx mod n) * s))
          (idx, 0))"
proof -
  have "for_each [0..<num_dims]
          (\<lambda>d (idx, strided_i). do {
             let dim_idx = num_dims - 1 - d;
             n \<leftarrow> load dims dim_idx;
             s \<leftarrow> load strides dim_idx;
             if n = 0 then None
             else Some (idx div n, strided_i + (idx mod n) * s) })
          (idx, 0)
      = for_each [0..<num_dims]
          (\<lambda>d. (\<lambda>(n, s) (idx, strided_i).
                   if n = 0 then None else Some (idx div n, strided_i + (idx mod n) * s))
                ((\<lambda>k. (dims ! k, strides ! k)) (num_dims - 1 - d)))
          (idx, 0)"
    using ld ls by (intro for_each_cong) (auto simp: load_def Let_def)
  also have "\<dots> = for_each (map (\<lambda>k. (dims ! k, strides ! k)) (map (\<lambda>d. num_dims - 1 - d) [0..<num_dims]))
          (\<lambda>(n, s) (idx, strided_i).
             if n = 0 then None else Some (idx div n, strided_i + (idx mod n) * s))
          (idx, 0)"
    by (simp only: for_each_map)
  also have "map (\<lambda>k. (dims ! k, strides ! k)) (map (\<lambda>d. num_dims - 1 - d) [0..<num_dims])
      = rev (zip dims strides)"
    by (simp only: map_rev_index rev_map [symmetric] zip_as_map_index [OF ld ls])
  finally show ?thesis
    by (simp only: get_strided_index_def)
qed

lemma sum_list_map2_rev:
  assumes "length xs = length ys"
  shows "sum_list (map2 (*) xs (rev ys)) = (\<Sum>d < length ys. rev xs ! d * (ys ! d :: nat))"
proof -
  have "sum_list (map2 (*) xs (rev ys)) = sum_list (rev (map2 (*) xs (rev ys)))"
    by (simp only: sum_list_rev)
  also have "rev (map2 (*) xs (rev ys)) = map2 (*) (rev xs) ys"
    using assms by (simp add: rev_map zip_rev [symmetric])
  also have "sum_list (map2 (*) (rev xs) ys) = (\<Sum>d < length ys. rev xs ! d * ys ! d)"
    using assms by (simp add: sum_list_sum_nth atLeast0LessThan)
  finally show ?thesis .
qed

lemma length_unravel_innermost_first [simp]:
  "length (unravel_innermost_first r ns) = length ns"
  by (induction ns arbitrary: r) simp_all

text \<open>
  The reference multi-index is the row-major one: for a flat index below the product of
  the shape, every coordinate is below its dimension, and the coordinates weighted by
  the products of the dimensions to their right add up to the flat index.
\<close>

lemma unravel_innermost_first_bound:
  assumes "r < prod_list ns" "j < length ns"
  shows "unravel_innermost_first r ns ! j < ns ! j"
  using assms
proof (induction ns arbitrary: r j)
  case Nil
  then show ?case by simp
next
  case (Cons n ns)
  from Cons.prems have n0: "0 < n" by (cases "n = 0") simp_all
  from Cons.prems have d: "r div n < prod_list ns"
    by (simp add: less_mult_imp_div_less mult.commute)
  show ?case
  proof (cases j)
    case 0
    with n0 show ?thesis by simp
  next
    case (Suc j')
    with Cons.prems Cons.IH [OF d, of j'] show ?thesis by simp
  qed
qed

lemma unravel_innermost_first_ravel:
  assumes "r < prod_list ns"
  shows "(\<Sum>j < length ns. unravel_innermost_first r ns ! j * prod_list (take j ns)) = r"
  using assms
proof (induction ns arbitrary: r)
  case Nil
  then show ?case by simp
next
  case (Cons n ns)
  from Cons.prems have d: "r div n < prod_list ns"
    by (simp add: less_mult_imp_div_less mult.commute)
  have "(\<Sum>j < length (n # ns). unravel_innermost_first r (n # ns) ! j * prod_list (take j (n # ns)))
      = r mod n + (\<Sum>j < length ns. unravel_innermost_first (r div n) ns ! j * (n * prod_list (take j ns)))"
    by (simp only: length_Cons sum.lessThan_Suc_shift) simp
  also have "(\<Sum>j < length ns. unravel_innermost_first (r div n) ns ! j * (n * prod_list (take j ns)))
      = n * (\<Sum>j < length ns. unravel_innermost_first (r div n) ns ! j * prod_list (take j ns))"
    by (simp add: sum_distrib_left mult.assoc mult.left_commute)
  also have "\<dots> = n * (r div n)"
    by (simp only: Cons.IH [OF d])
  finally show ?case by simp
qed

lemma unravel_row_major:
  assumes "flat_index < prod_list shape"
  shows "length (unravel flat_index shape) = length shape
     \<and> (\<forall>d < length shape. unravel flat_index shape ! d < shape ! d)
     \<and> (\<Sum>d < length shape. unravel flat_index shape ! d * prod_list (drop (Suc d) shape))
         = flat_index"
proof -
  define n where "n = length shape"
  have r: "flat_index < prod_list (rev shape)"
    using assms by (simp only: prod_list.rev)
  have nth: "unravel flat_index shape ! d
      = unravel_innermost_first flat_index (rev shape) ! (n - Suc d)" if "d < n" for d
    using that by (simp add: unravel_def rev_nth n_def)
  have b: "unravel flat_index shape ! d < shape ! d" if "d < n" for d
  proof -
    from that have "n - Suc d < length (rev shape)" by (simp add: n_def)
    from unravel_innermost_first_bound [OF r this] that show ?thesis
      by (simp add: nth rev_nth n_def)
  qed
  have w: "prod_list (take (n - Suc d) (rev shape)) = prod_list (drop (Suc d) shape)" if "d < n" for d
    using that by (simp add: take_rev n_def prod_list.rev)
  have "(\<Sum>d < n. unravel flat_index shape ! d * prod_list (drop (Suc d) shape))
      = (\<Sum>d < n. unravel_innermost_first flat_index (rev shape) ! (n - Suc d)
                    * prod_list (take (n - Suc d) (rev shape)))"
    by (intro sum.cong) (simp_all add: nth w)
  also have "\<dots> = (\<Sum>j < n. unravel_innermost_first flat_index (rev shape) ! j
                    * prod_list (take j (rev shape)))"
    by (rule sum.nat_diff_reindex)
  also have "\<dots> = flat_index"
    using unravel_innermost_first_ravel [OF r] by (simp add: n_def)
  finally show ?thesis using b by (simp add: n_def unravel_def)
qed

text \<open>
  C1. For every flat index below the product of the shape, with a shape and strides of
  \<open>num_dims\<close> entries each, the index resolver returns (without undefined behaviour) the
  offset of the reference computation: unravel the flat index into a row-major
  multi-index against the shape, innermost dimension first with a running remainder,
  then take the sum over the dimensions of coordinate times stride.
\<close>

theorem get_strided_index_reference:
  assumes ld: "length dims = num_dims" and ls: "length strides = num_dims"
    and range: "flat_index < prod_list dims"
  shows "get_strided_index flat_index num_dims dims strides
     = Some (reference_offset flat_index dims strides)"
proof -
  have l: "length dims = length strides" using ld ls by simp
  have f: "map fst (rev (zip dims strides)) = rev dims"
    and s: "map snd (rev (zip dims strides)) = rev strides"
    using l by (simp_all add: rev_map [symmetric])
  have "flat_index < prod_list (map fst (rev (zip dims strides)))"
    using range by (simp only: f prod_list.rev)
  from resolver_loop_pairs [OF this, of 0]
  have "get_strided_index flat_index num_dims dims strides
      = Some (sum_list (map2 (*) (unravel_innermost_first flat_index (rev dims)) (rev strides)))"
    by (simp add: get_strided_index_pairs [OF ld ls] f s)
  also have "sum_list (map2 (*) (unravel_innermost_first flat_index (rev dims)) (rev strides))
      = reference_offset flat_index dims strides"
    using l by (simp add: sum_list_map2_rev reference_offset_def unravel_def)
  finally show ?thesis .
qed

text \<open>
  The theorem for flat index 4 of shape 2 x 3, whose multi-index is \<open>(1, 1)\<close>: offset 4
  in a contiguous tensor, offset 1 when the outer dimension is broadcast (stride 0).
\<close>

theorem get_strided_index_reference_witness:
  "length [2, 3 :: nat] = 2 \<and> length [0, 1 :: nat] = 2 \<and> (4 :: nat) < prod_list [2, 3]
   \<and> unravel 4 [2, 3] = [1, 1]
   \<and> reference_offset 4 [2, 3] [0, 1] = 1
   \<and> get_strided_index 4 2 [2, 3] [0, 1] = Some 1
   \<and> get_strided_index 4 2 [2, 3] [3, 1] = Some 4"
proof -
  have h: "length [2, 3 :: nat] = 2" "length [0, 1 :: nat] = 2" "length [3, 1 :: nat] = 2"
    "(4 :: nat) < prod_list [2, 3]"
    by simp_all
  have u: "unravel 4 [2, 3] = [1, 1]"
    and r: "reference_offset 4 [2, 3] [0, 1] = 1" "reference_offset 4 [2, 3] [3, 1] = 4"
    by code_simp+
  from get_strided_index_reference [OF h(1) h(2) h(4)] get_strided_index_reference [OF h(1) h(3) h(4)]
  have "get_strided_index 4 2 [2, 3] [0, 1] = Some 1" "get_strided_index 4 2 [2, 3] [3, 1] = Some 4"
    by (simp_all only: r)
  with h u r show ?thesis by blast
qed

subsection \<open>Binary division accumulates by atomic addition\<close>

lemma atomicAdd_nth:
  assumes "atomicAdd T a g = Some g'"
  shows "grad_lhs g' ! k = (if buffer a = Grad_lhs \<and> offset a = k
                           then sc_add T (grad_lhs g ! k) (addend a) else grad_lhs g ! k)"
    and "grad_rhs g' ! k = (if buffer a = Grad_rhs \<and> offset a = k
                           then sc_add T (grad_rhs g ! k) (addend a) else grad_rhs g ! k)"
  using assms
  by (cases "buffer a"; auto simp: atomicAdd_def load_def split: bind_splits if_splits)+

lemma execute_added_to:
  assumes "execute T schedule g = Some g'"
  shows "grad_lhs g' ! k = foldl (sc_add T) (grad_lhs g ! k) (added_to Grad_lhs k schedule)
       \<and> grad_rhs g' ! k = foldl (sc_add T) (grad_rhs g ! k) (added_to Grad_rhs k schedule)"
  using assms
proof (induction schedule arbitrary: g)
  case Nil
  then show ?case by (simp add: execute_def added_to_def)
next
  case (Cons a schedule)
  from Cons.prems obtain g1 where a: "atomicAdd T a g = Some g1"
    and r: "execute T schedule g1 = Some g'"
    by (auto simp: execute_def split: option.splits)
  from Cons.IH [OF r] atomicAdd_nth [OF a, of k] show ?case
    by (simp add: added_to_def)
qed

lemma mset_added_to:
  assumes "mset schedule = mset adds"
  shows "mset (added_to buf k schedule) = mset (added_to buf k adds)"
proof -
  have "mset (added_to buf k es)
      = image_mset addend (filter_mset (\<lambda>a. buffer a = buf \<and> offset a = k) (mset es))" for es :: "'a atomic_add list"
    by (simp add: added_to_def)
  with assms show ?thesis by simp
qed

lemma added_to_append:
  "added_to buf k (xs @ ys) = added_to buf k xs @ added_to buf k ys"
  by (simp add: added_to_def)

lemma traces_operands:
  assumes "map (binary_div_backward T numel num_dims dims lhs lhs_strides rhs rhs_strides
               grad_out_buf out_strides) threads = map Some traces"
  shows "\<exists>operands.
      map (binary_div_operands num_dims dims lhs lhs_strides rhs rhs_strides grad_out_buf out_strides)
        (filter (\<lambda>i. ucast i < numel) threads) = map Some operands
      \<and> (\<forall>k. added_to Grad_lhs k (concat traces)
             = map (\<lambda>(lhs_i, rhs_i, x, y, go). sc_mul T (dfdx T y) go)
                 (filter (\<lambda>(lhs_i, rhs_i, x, y, go). unat lhs_i = k) operands))
      \<and> (\<forall>k. added_to Grad_rhs k (concat traces)
             = map (\<lambda>(lhs_i, rhs_i, x, y, go). sc_mul T (dfdy T x y) go)
                 (filter (\<lambda>(lhs_i, rhs_i, x, y, go). unat rhs_i = k) operands))"
  using assms
proof (induction threads arbitrary: traces)
  case Nil
  then show ?case by (simp add: added_to_def)
next
  case (Cons i threads)
  from Cons.prems obtain tr trs where t: "traces = tr # trs"
    and i: "binary_div_backward T numel num_dims dims lhs lhs_strides rhs rhs_strides
               grad_out_buf out_strides i = Some tr"
    and r: "map (binary_div_backward T numel num_dims dims lhs lhs_strides rhs rhs_strides
               grad_out_buf out_strides) threads = map Some trs"
    by (cases traces) auto
  from Cons.IH [OF r] obtain operands where
    o: "map (binary_div_operands num_dims dims lhs lhs_strides rhs rhs_strides grad_out_buf out_strides)
        (filter (\<lambda>i. ucast i < numel) threads) = map Some operands"
    and l: "\<And>k. added_to Grad_lhs k (concat trs)
             = map (\<lambda>(lhs_i, rhs_i, x, y, go). sc_mul T (dfdx T y) go)
                 (filter (\<lambda>(lhs_i, rhs_i, x, y, go). unat lhs_i = k) operands)"
    and rr: "\<And>k. added_to Grad_rhs k (concat trs)
             = map (\<lambda>(lhs_i, rhs_i, x, y, go). sc_mul T (dfdy T x y) go)
                 (filter (\<lambda>(lhs_i, rhs_i, x, y, go). unat rhs_i = k) operands)"
    by blast
  show ?case
  proof (cases "ucast i < numel")
    case False
    with i have "tr = []" by (simp add: binary_div_backward_def not_less)
    with False o l rr show ?thesis
      by (intro exI [of _ operands]) (simp add: t case_prod_unfold)
  next
    case True
    with i obtain lhs_i rhs_i x y go where
      p: "binary_div_operands num_dims dims lhs lhs_strides rhs rhs_strides grad_out_buf
            out_strides i = Some (lhs_i, rhs_i, x, y, go)"
      and tr: "tr = [AtomicAdd Grad_lhs (unat lhs_i) (sc_mul T (dfdx T y) go),
                     AtomicAdd Grad_rhs (unat rhs_i) (sc_mul T (dfdy T x y) go)]"
      by (auto simp: binary_div_backward_def not_le [symmetric] split: bind_splits)
    have "added_to Grad_lhs k tr = (if unat lhs_i = k then [sc_mul T (dfdx T y) go] else [])"
      and "added_to Grad_rhs k tr = (if unat rhs_i = k then [sc_mul T (dfdy T x y) go] else [])"
      for k
      by (simp_all add: tr added_to_def)
    with True o l rr p show ?thesis
      by (intro exI [of _ "(lhs_i, rhs_i, x, y, go) # operands"])
        (simp add: t added_to_append case_prod_unfold)
  qed
qed

text \<open>
  C5. Let every launched thread of \<open>binary_div_backward\<close> be defined, let \<open>schedule\<close> be
  any arrangement of the atomic additions of all threads, and let the execution of the
  schedule succeed. Then every launched thread in range has read its operands
  \<open>(lhs_i, rhs_i, x, y, go)\<close>, and for every offset \<open>k\<close> the final \<open>grad_lhs[k]\<close> is the
  initial one with the values \<open>(1.0 / y) * go\<close> of exactly the threads with \<open>lhs_i = k\<close>
  added, each once, and the final \<open>grad_rhs[k]\<close> is the initial one with the values
  \<open>(-x / (y * y)) * go\<close> of exactly the threads with \<open>rhs_i = k\<close> added, each once, in the
  order of the schedule. With a stride 0 in \<open>rhs_strides\<close> these are all the logical
  positions that are broadcast to \<open>k\<close>. The statement holds for every scalar arithmetic;
  the sum is the one accumulated in the order in which the atomic additions happen.
\<close>

theorem binary_div_backward_accumulates:
  assumes traces: "map (binary_div_backward T numel num_dims dims lhs lhs_strides rhs rhs_strides
               grad_out_buf out_strides) threads = map Some traces"
    and sched: "mset schedule = mset (concat traces)"
    and run: "execute T schedule g = Some g'"
  shows "\<exists>operands.
      map (binary_div_operands num_dims dims lhs lhs_strides rhs rhs_strides grad_out_buf out_strides)
        (filter (\<lambda>i. ucast i < numel) threads) = map Some operands
      \<and> (\<forall>k. \<exists>summands.
             mset summands
               = image_mset (\<lambda>(lhs_i, rhs_i, x, y, go). sc_mul T (dfdx T y) go)
                   (filter_mset (\<lambda>(lhs_i, rhs_i, x, y, go). unat lhs_i = k) (mset operands))
             \<and> grad_lhs g' ! k = foldl (sc_add T) (grad_lhs g ! k) summands)
      \<and> (\<forall>k. \<exists>summands.
             mset summands
               = image_mset (\<lambda>(lhs_i, rhs_i, x, y, go). sc_mul T (dfdy T x y) go)
                   (filter_mset (\<lambda>(lhs_i, rhs_i, x, y, go). unat rhs_i = k) (mset operands))
             \<and> grad_rhs g' ! k = foldl (sc_add T) (grad_rhs g ! k) summands)"
proof -
  from traces_operands [OF traces] obtain operands where
    o: "map (binary_div_operands num_dims dims lhs lhs_strides rhs rhs_strides grad_out_buf out_strides)
        (filter (\<lambda>i. ucast i < numel) threads) = map Some operands"
    and l: "\<And>k. added_to Grad_lhs k (concat traces)
             = map (\<lambda>(lhs_i, rhs_i, x, y, go). sc_mul T (dfdx T y) go)
                 (filter (\<lambda>(lhs_i, rhs_i, x, y, go). unat lhs_i = k) operands)"
    and r: "\<And>k. added_to Grad_rhs k (concat traces)
             = map (\<lambda>(lhs_i, rhs_i, x, y, go). sc_mul T (dfdy T x y) go)
                 (filter (\<lambda>(lhs_i, rhs_i, x, y, go). unat rhs_i = k) operands)"
    by blast
  have ml: "mset (added_to Grad_lhs k schedule)
      = image_mset (\<lambda>(lhs_i, rhs_i, x, y, go). sc_mul T (dfdx T y) go)
          (filter_mset (\<lambda>(lhs_i, rhs_i, x, y, go). unat lhs_i = k) (mset operands))" for k
    by (simp only: mset_added_to [OF sched] l mset_map mset_filter)
  have mr: "mset (added_to Grad_rhs k schedule)
      = image_mset (\<lambda>(lhs_i, rhs_i, x, y, go). sc_mul T (dfdy T x y) go)
          (filter_mset (\<lambda>(lhs_i, rhs_i, x, y, go). unat rhs_i = k) (mset operands))" for k
    by (simp only: mset_added_to [OF sched] r mset_map mset_filter)
  from execute_added_to [OF run] o ml mr show ?thesis
    by (intro exI [of _ operands]) blast
qed

text \<open>
  The theorem for a vector of two elements divided by a broadcast scalar (stride 0):
  \<open>[6, 8] / [2]\<close> with output gradient \<open>[1, 1]\<close>. Both threads add to \<open>grad_rhs[0]\<close>,
  which goes from 10 to \<open>10 - 6/4 - 8/4\<close>; the schedule interleaves the two threads.
\<close>

theorem binary_div_backward_accumulates_witness:
  "map (binary_div_backward exact 2 1 [2] [Fin 6, Fin 8] [1] [Fin 2] [0] [Fin 1, Fin 1] [1]) [0, 1]
     = map Some [[AtomicAdd Grad_lhs 0 (Fin (1 / 2)), AtomicAdd Grad_rhs 0 (Fin (- (3 / 2)))],
                 [AtomicAdd Grad_lhs 1 (Fin (1 / 2)), AtomicAdd Grad_rhs 0 (Fin (- 2))]]
   \<and> mset [AtomicAdd Grad_lhs 1 (Fin (1 / 2)), AtomicAdd Grad_lhs 0 (Fin (1 / 2)),
            AtomicAdd Grad_rhs 0 (Fin (- (3 / 2))), AtomicAdd Grad_rhs 0 (Fin (- 2))]
     = mset (concat [[AtomicAdd Grad_lhs 0 (Fin (1 / 2)), AtomicAdd Grad_rhs 0 (Fin (- (3 / 2)))],
                     [AtomicAdd Grad_lhs 1 (Fin (1 / 2)), AtomicAdd Grad_rhs 0 (Fin (- 2))]])
   \<and> execute exact
        [AtomicAdd Grad_lhs 1 (Fin (1 / 2)), AtomicAdd Grad_lhs 0 (Fin (1 / 2)),
         AtomicAdd Grad_rhs 0 (Fin (- (3 / 2))), AtomicAdd Grad_rhs 0 (Fin (- 2))]
        \<lparr>grad_lhs = [Fin 0, Fin 0], grad_rhs = [Fin 10]\<rparr>
     = Some \<lparr>grad_lhs = [Fin (1 / 2), Fin (1 / 2)], grad_rhs = [Fin (13 / 2)]\<rparr>
   \<and> map (binary_div_operands 1 [2] [Fin 6, Fin 8] [1] [Fin 2] [0] [Fin 1, Fin 1] [1])
        (filter (\<lambda>i. ucast i < (2 :: size_t)) [0, 1])
     = map Some [(0, 0, Fin 6, Fin 2, Fin 1), (1, 0, Fin 8, Fin 2, Fin 1)]
   \<and> (\<exists>summands. mset summands = {#Fin (- (3 / 2)), Fin (- 2)#}
         \<and> grad_rhs \<lparr>grad_lhs = [Fin (1 / 2), Fin (1 / 2)], grad_rhs = [Fin (13 / 2)]\<rparr> ! 0
           = foldl ieee_add (Fin 10) summands)"
proof -
  have t: "map (binary_div_backward exact 2 1 [2] [Fin 6, Fin 8] [1] [Fin 2] [0] [Fin 1, Fin 1] [1]) [0, 1]
     = map Some [[AtomicAdd Grad_lhs 0 (Fin (1 / 2)), AtomicAdd Grad_rhs 0 (Fin (- (3 / 2)))],
                 [AtomicAdd Grad_lhs 1 (Fin (1 / 2)), AtomicAdd Grad_rhs 0 (Fin (- 2))]]"
    by code_simp
  have s: "mset [AtomicAdd Grad_lhs 1 (Fin (1 / 2)), AtomicAdd Grad_lhs 0 (Fin (1 / 2)),
            AtomicAdd Grad_rhs 0 (Fin (- (3 / 2))), AtomicAdd Grad_rhs 0 (Fin (- 2))]
     = mset (concat [[AtomicAdd Grad_lhs 0 (Fin (1 / 2)), AtomicAdd Grad_rhs 0 (Fin (- (3 / 2)))],
                     [AtomicAdd Grad_lhs 1 (Fin (1 / 2)), AtomicAdd Grad_rhs 0 (Fin (- 2))]])"
    by simp
  have e: "execute exact
        [AtomicAdd Grad_lhs 1 (Fin (1 / 2)), AtomicAdd Grad_lhs 0 (Fin (1 / 2)),
         AtomicAdd Grad_rhs 0 (Fin (- (3 / 2))), AtomicAdd Grad_rhs 0 (Fin (- 2))]
        \<lparr>grad_lhs = [Fin 0, Fin 0], grad_rhs = [Fin 10]\<rparr>
     = Some \<lparr>grad_lhs = [Fin (1 / 2), Fin (1 / 2)], grad_rhs = [Fin (13 / 2)]\<rparr>"
    by code_simp
  have o: "map (binary_div_operands 1 [2] [Fin 6, Fin 8] [1] [Fin 2] [0] [Fin 1, Fin 1] [1])
        (filter (\<lambda>i. ucast i < (2 :: size_t)) [0, 1])
     = map Some [(0, 0, Fin 6, Fin 2, Fin 1), (1, 0, Fin 8, Fin 2, Fin 1)]"
    by code_simp
  from binary_div_backward_accumulates [OF t s e] obtain operands where
    o': "map (binary_div_operands 1 [2] [Fin 6, Fin 8] [1] [Fin 2] [0] [Fin 1, Fin 1] [1])
        (filter (\<lambda>i. ucast i < (2 :: size_t)) [0, 1]) = map Some operands"
    and r: "\<forall>k. \<exists>summands.
             mset summands
               = image_mset (\<lambda>(lhs_i, rhs_i, x, y, go). sc_mul exact (dfdy exact x y) go)
                   (filter_mset (\<lambda>(lhs_i, rhs_i, x, y, go). unat rhs_i = k) (mset operands))
             \<and> grad_rhs \<lparr>grad_lhs = [Fin (1 / 2), Fin (1 / 2)], grad_rhs = [Fin (13 / 2)]\<rparr> ! k
               = foldl (sc_add exact)
                   (grad_rhs \<lparr>grad_lhs = [Fin 0, Fin 0], grad_rhs = [Fin 10]\<rparr> ! k) summands"
    by blast
  from o o' have "map Some operands = map Some [(0, 0, Fin 6, Fin 2, Fin 1), (1, 0, Fin 8, Fin 2, Fin 1)]"
    by simp
  then have ops: "operands = [(0, 0, Fin 6, Fin 2, Fin 1), (1, 0, Fin 8, Fin 2, Fin 1)]"
    by (rule map_injective) simp
  from r [rule_format, of 0] obtain summands where
    "mset summands
       = image_mset (\<lambda>(lhs_i, rhs_i, x, y, go). sc_mul exact (dfdy exact x y) go)
           (filter_mset (\<lambda>(lhs_i, rhs_i, x, y, go). unat rhs_i = 0) (mset operands))"
    and f: "grad_rhs \<lparr>grad_lhs = [Fin (1 / 2), Fin (1 / 2)], grad_rhs = [Fin (13 / 2)]\<rparr> ! 0
       = foldl (sc_add exact)
           (grad_rhs \<lparr>grad_lhs = [Fin 0, Fin 0], grad_rhs = [Fin 10]\<rparr> ! 0) summands"
    by blast
  then have m: "mset summands = {#Fin (- (3 / 2)), Fin (- 2)#}"
    by (simp add: ops dfdy_def exact_def)
  from f have f': "grad_rhs \<lparr>grad_lhs = [Fin (1 / 2), Fin (1 / 2)], grad_rhs = [Fin (13 / 2)]\<rparr> ! 0
       = foldl ieee_add (Fin 10) summands"
    by (simp add: exact_def)
  from t s e o m f' show ?thesis by blast
qed

end
